theory Spec2Isabelle
  imports Complex_Main
begin

section \<open>The argument bag of a tool call\<close>

text \<open>
  This theory models the tool handlers of \<^verbatim>\<open>src/index.ts\<close>: the type guards, the two search
  handlers, the association lookup and the disease targets summary. The file holds two
  copies of the server. They share the guards and the bodies of the handlers modelled
  here; the model follows the first copy, whose handlers throw \<^verbatim>\<open>McpError\<close> on arguments
  that fail a guard (the second copy returns an error envelope there).

  The handlers receive \<^verbatim>\<open>args: any\<close>, the object parsed from the
  JSON of the request. A field holds a JSON value or is absent (\<^verbatim>\<open>undefined\<close>). Numbers
  are modelled as rationals: every comparison the code makes between finite numbers is
  exact on them, and JSON carries neither NaN nor an infinity. Arrays and objects are
  not inspected by any code modelled here and are collapsed into one value.
\<close>

datatype jsval = JUndefined | JNull | JBool bool | JNum rat | JStr string | JObject

text \<open>JavaScript truthiness, as used by \<^verbatim>\<open>a && b\<close>, \<^verbatim>\<open>!a\<close> and \<^verbatim>\<open>a || b\<close>.\<close>

fun truthy :: "jsval \<Rightarrow> bool" where
  "truthy JUndefined = False"
| "truthy JNull = False"
| "truthy (JBool b) = b"
| "truthy (JNum r) = (r \<noteq> 0)"
| "truthy (JStr s) = (s \<noteq> [])"
| "truthy JObject = True"

definition js_or :: "jsval \<Rightarrow> jsval \<Rightarrow> jsval" where
  "js_or a b = (if truthy a then a else b)"

text \<open>
  The value of a number. Where the code uses a value of another type as a number,
  JavaScript coerces it (parsing strings, for instance); those coercions are not
  modelled, and \<open>as_number\<close> gives \<open>None\<close> there.
\<close>

fun as_number :: "jsval \<Rightarrow> rat option" where
  "as_number (JNum r) = Some r"
| "as_number _ = None"

record tool_args =
  query :: jsval
  targetId :: jsval
  diseaseId :: jsval
  minScore :: jsval
  id_arg :: jsval
  size_arg :: jsval
  format :: jsval

text \<open>
  The type guards. The bag is an object whenever a handler runs (the dispatcher has read
  its \<^verbatim>\<open>method\<close> field), so the two leading conjuncts \<^verbatim>\<open>typeof args === 'object'\<close> and
  \<^verbatim>\<open>args !== null\<close> hold and are left out. A \<^verbatim>\<open>typeof x === 'number'\<close> (or
  \<^verbatim>\<open>'string'\<close>) test followed by comparisons on \<^verbatim>\<open>x\<close> is a case distinction on the value.
  The conjuncts on \<^verbatim>\<open>size\<close>, \<^verbatim>\<open>minScore\<close> and \<^verbatim>\<open>format\<close>, which the guards repeat word for
  word, are named \<open>valid_size_50000\<close>, \<open>valid_minScore\<close> and \<open>valid_format\<close>.
\<close>

definition valid_size_50000 :: "jsval \<Rightarrow> bool" where
  "valid_size_50000 v =
     (v = JUndefined \<or> (case v of JNum n \<Rightarrow> 0 < n \<and> n \<le> 50000 | _ \<Rightarrow> False))"

definition valid_minScore :: "jsval \<Rightarrow> bool" where
  "valid_minScore v =
     (v = JUndefined \<or> (case v of JNum m \<Rightarrow> 0 \<le> m \<and> m \<le> 1 | _ \<Rightarrow> False))"

definition valid_format :: "jsval \<Rightarrow> bool" where
  "valid_format v = (v = JUndefined \<or> v \<in> set [JStr ''json'', JStr ''tsv''])"

definition isValidTargetSearchArgs :: "tool_args \<Rightarrow> bool" where
  "isValidTargetSearchArgs args =
     ((case query args of JStr q \<Rightarrow> length q > 0 | _ \<Rightarrow> False) \<and>
      valid_size_50000 (size_arg args) \<and>
      valid_format (format args))"

definition isValidDiseaseSearchArgs :: "tool_args \<Rightarrow> bool" where
  "isValidDiseaseSearchArgs args =
     ((case query args of JStr q \<Rightarrow> length q > 0 | _ \<Rightarrow> False) \<and>
      valid_size_50000 (size_arg args) \<and>
      valid_format (format args))"

definition isValidAssociationArgs :: "tool_args \<Rightarrow> bool" where
  "isValidAssociationArgs args =
     ((targetId args = JUndefined \<or> (case targetId args of JStr _ \<Rightarrow> True | _ \<Rightarrow> False)) \<and>
      (diseaseId args = JUndefined \<or> (case diseaseId args of JStr _ \<Rightarrow> True | _ \<Rightarrow> False)) \<and>
      valid_minScore (minScore args) \<and>
      valid_size_50000 (size_arg args) \<and>
      (targetId args \<noteq> JUndefined \<or> diseaseId args \<noteq> JUndefined))"

definition isValidIdArgs :: "tool_args \<Rightarrow> bool" where
  "isValidIdArgs args = (case id_arg args of JStr s \<Rightarrow> length s > 0 | _ \<Rightarrow> False)"

section \<open>The upstream endpoint\<close>

text \<open>
  One row of \<^verbatim>\<open>associatedDiseases.rows\<close> or \<^verbatim>\<open>associatedTargets.rows\<close>: the counterpart
  entity, which the association lookup passes through untouched, and the score.
\<close>

record 'e assoc_row =
  counterpart :: 'e
  score :: rat

text \<open>
  What the code reads from \<^verbatim>\<open>response.data.data?.target\<close> (or \<^verbatim>\<open>?.disease\<close>). Every level
  that the code guards with \<^verbatim>\<open>?.\<close> or \<^verbatim>\<open>||\<close> may be missing.
\<close>

record 'e associations =
  count :: "int option"
  rows :: "'e assoc_row list option"

record 'e entity_data =
  ent_id :: "string option"
  ent_label :: "string option"
  ent_assoc :: "'e associations option"

text \<open>
  The body of a response that arrived, \<^verbatim>\<open>response.data\<close>: the \<^verbatim>\<open>errors\<close> array that GraphQL
  puts beside or in place of the data (empty when there is none), and the entity under
  \<^verbatim>\<open>data\<close>. No handler reads \<^verbatim>\<open>errors\<close>; a body with errors and no data reads like a
  body without the entity.
\<close>

record 'e response =
  gql_errors :: "string list"
  gql_data :: "'e entity_data option"

text \<open>
  What \<^verbatim>\<open>graphqlClient.post\<close> rejects with (a network error, a timeout, an HTTP error
  status), or what reading the response throws: an \<^verbatim>\<open>Error\<close> with its message, or some
  other thrown value.
\<close>

datatype thrown = Error string | NonError

datatype query_name = GetTargetAssociations | GetDiseaseAssociations | GetDiseaseTargetsSummary

text \<open>The variables of one paged request: the identifier, \<^verbatim>\<open>size\<close> and \<^verbatim>\<open>offset\<close>.\<close>

record page_request =
  req_query :: query_name
  req_id :: jsval
  req_size :: nat
  req_offset :: nat

text \<open>
  The upstream is a parameter of the handlers: the answer to each request, a thrown
  value or the body of the response. Within one run every request has its own
  offset, so a function of the request stands for any sequence of answers. Rows have the
  shape the query selects.
\<close>

type_synonym 'e upstream = "page_request \<Rightarrow> thrown + 'e response"

section \<open>The pagination loop\<close>

text \<open>
  The three copies of the loop (association by target, association by disease, disease
  summary) differ in the query and in the names of their variables only; the summary
  copy does not keep the entity's identifier. \<open>fetchAllPages\<close> is that loop, on the
  variables the source declares before it. It returns the requests it issued, in order,
  and either the value thrown by a failing request or the variables after the loop.
\<close>

record 'e agg_state =
  allRows :: "'e assoc_row list"
  pageIndex :: nat
  totalCount :: int
  entityId :: "string option"
  entityName :: "string option"

definition pageSize :: nat where
  "pageSize = 100"

definition request_at :: "query_name \<Rightarrow> jsval \<Rightarrow> nat \<Rightarrow> page_request" where
  "request_at q ident k = \<lparr>req_query = q, req_id = ident, req_size = pageSize, req_offset = k\<rparr>"

definition initial_state :: "'e agg_state" where
  "initial_state = \<lparr>allRows = [], pageIndex = 0, totalCount = 0, entityId = None, entityName = None\<rparr>"

definition rows_of :: "'e response \<Rightarrow> 'e assoc_row list" where
  "rows_of resp =
     (case gql_data resp of None \<Rightarrow> []
      | Some d \<Rightarrow> (case ent_assoc d of None \<Rightarrow> []
          | Some a \<Rightarrow> (case rows a of None \<Rightarrow> [] | Some rs \<Rightarrow> rs)))"

definition count_of :: "'e response \<Rightarrow> int" where
  "count_of resp =
     (case gql_data resp of None \<Rightarrow> 0
      | Some d \<Rightarrow> (case ent_assoc d of None \<Rightarrow> 0
          | Some a \<Rightarrow> (case count a of None \<Rightarrow> 0 | Some c \<Rightarrow> c)))"

definition page_step :: "'e response \<Rightarrow> 'e agg_state \<Rightarrow> 'e agg_state" where
  "page_step resp st =
     (let st1 = (if pageIndex st = 0
                 then st\<lparr>totalCount := count_of resp,
                         entityId := Option.bind (gql_data resp) ent_id,
                         entityName := Option.bind (gql_data resp) ent_label\<rparr>
                 else st)
      in st1\<lparr>allRows := allRows st1 @ rows_of resp, pageIndex := pageIndex st1 + 1\<rparr>)"

definition hasMore :: "'e response \<Rightarrow> rat \<Rightarrow> 'e agg_state \<Rightarrow> bool" where
  "hasMore resp requestedSize st =
     (length (rows_of resp) = pageSize \<and>
      int (length (allRows st)) < totalCount st \<and>
      of_nat (length (allRows st)) < requestedSize)"

function fetchAllPages ::
  "'e upstream \<Rightarrow> query_name \<Rightarrow> jsval \<Rightarrow> rat \<Rightarrow> 'e agg_state
     \<Rightarrow> page_request list \<times> (thrown + 'e agg_state)" where
  "fetchAllPages post q ident requestedSize st =
     (let req = request_at q ident (pageIndex st)
      in case post req of
           Inl e \<Rightarrow> ([req], Inl e)
         | Inr resp \<Rightarrow>
             if hasMore resp requestedSize (page_step resp st)
             then (case fetchAllPages post q ident requestedSize (page_step resp st) of
                     (tr, res) \<Rightarrow> (req # tr, res))
             else ([req], Inr (page_step resp st)))"
  by pat_completeness auto

termination
proof (relation "measure (\<lambda>(post, q, ident, requestedSize, st).
                   nat \<lceil>requestedSize\<rceil> - length (allRows st))")
  show "wf (measure (\<lambda>(post :: 'a upstream, q :: query_name, ident :: jsval, requestedSize :: rat,
              st :: 'a agg_state). nat \<lceil>requestedSize\<rceil> - length (allRows st)))"
    by simp
next
  fix post :: "'a upstream" and q :: query_name and ident :: jsval and requestedSize :: rat
    and st :: "'a agg_state" and resp :: "'a response"
  assume more: "hasMore resp requestedSize (page_step resp st)"
  have grown: "allRows (page_step resp st) = allRows st @ rows_of resp"
    by (simp add: page_step_def Let_def)
  from more have full: "length (rows_of resp) = 100"
    by (simp add: hasMore_def pageSize_def)
  from more have "of_int (int (length (allRows st) + 100)) < requestedSize"
    using full by (simp add: hasMore_def grown)
  then have "int (length (allRows st) + 100) < \<lceil>requestedSize\<rceil>"
    by (simp only: less_ceiling_iff)
  then have "length (allRows st) + 100 < nat \<lceil>requestedSize\<rceil>"
    by simp
  then show "((post, q, ident, requestedSize, page_step resp st),
              (post, q, ident, requestedSize, st))
             \<in> measure (\<lambda>(post, q, ident, requestedSize, st).
                   nat \<lceil>requestedSize\<rceil> - length (allRows st))"
    using full by (simp add: grown)
qed

text \<open>
  The rows of the pages that the requests of a run were answered with, in order.
\<close>

definition rows_served :: "'e upstream \<Rightarrow> page_request list \<Rightarrow> 'e assoc_row list" where
  "rows_served post tr =
     concat (map (\<lambda>req. case post req of Inl _ \<Rightarrow> [] | Inr resp \<Rightarrow> rows_of resp) tr)"

section \<open>Results of a handler\<close>

text \<open>
  A handler either throws an \<^verbatim>\<open>McpError\<close> or returns \<^verbatim>\<open>{content, isError}\<close>. The text of
  the content is \<^verbatim>\<open>JSON.stringify\<close> of an object; the model keeps the object.
  \<open>Unmodelled\<close> stands for the runs in which the code uses a value that is not a number
  as a number (see \<open>as_number\<close>).
\<close>

datatype mcp_error = InvalidParams string

record 'c tool_result =
  content :: 'c
  isError :: bool

datatype 'c outcome = Throws mcp_error | Returns "'c tool_result" | Unmodelled

record pagination =
  requested :: rat
  returned :: nat
  total :: int
  filtered :: nat

definition error_message :: "thrown \<Rightarrow> string" where
  "error_message e = (case e of Error m \<Rightarrow> m | NonError \<Rightarrow> ''Unknown error'')"

text \<open>
  \<^verbatim>\<open>xs.slice(0, end)\<close>: \<^verbatim>\<open>end\<close> is truncated towards zero; a negative end counts from the
  end of the array.
\<close>

definition js_trunc :: "rat \<Rightarrow> int" where
  "js_trunc r = (if r < 0 then \<lceil>r\<rceil> else \<lfloor>r\<rfloor>)"

definition slice0 :: "'a list \<Rightarrow> rat \<Rightarrow> 'a list" where
  "slice0 xs e =
     (let k = js_trunc e
      in if k < 0 then take (nat (int (length xs) + k)) xs else take (nat k) xs)"

definition filterRows :: "rat \<Rightarrow> 'e assoc_row list \<Rightarrow> 'e assoc_row list" where
  "filterRows minScoreN rs =
     (if minScoreN > 0 then filter (\<lambda>row. score row \<ge> minScoreN) rs else rs)"

section \<open>Association lookup\<close>

record 'e assoc_body =
  body_id :: "string option"
  body_label :: "string option"
  body_count :: int
  body_rows :: "'e assoc_row list"
  body_pagination :: pagination

datatype 'e assoc_content =
    TargetAssociations "'e assoc_body"
  | DiseaseAssociations "'e assoc_body"
  | NotImplemented
  | AssocErrorText string

definition assoc_body_of :: "rat \<Rightarrow> rat \<Rightarrow> 'e agg_state \<Rightarrow> 'e assoc_body" where
  "assoc_body_of requestedSize minScoreN st =
     (let filteredRows = filterRows minScoreN (allRows st);
          limitedRows = slice0 filteredRows requestedSize
      in \<lparr>body_id = entityId st,
          body_label = entityName st,
          body_count = totalCount st,
          body_rows = limitedRows,
          body_pagination =
            \<lparr>requested = requestedSize,
             returned = length limitedRows,
             total = totalCount st,
             filtered = length filteredRows\<rparr>\<rparr>)"

definition assoc_error :: "thrown \<Rightarrow> 'e assoc_content outcome" where
  "assoc_error e =
     Returns \<lparr>content = AssocErrorText (''Error getting associations: '' @ error_message e),
              isError = True\<rparr>"

text \<open>
  What either branch does with the outcome of its loop: a rejected request lands in the
  \<^verbatim>\<open>catch\<close> block of the handler; otherwise the rows are filtered, cut and wrapped
  (under the key \<^verbatim>\<open>target\<close> or \<^verbatim>\<open>disease\<close>).
\<close>

definition assoc_finish ::
  "('e assoc_body \<Rightarrow> 'e assoc_content) \<Rightarrow> rat \<Rightarrow> rat
     \<Rightarrow> page_request list \<times> (thrown + 'e agg_state)
     \<Rightarrow> page_request list \<times> 'e assoc_content outcome" where
  "assoc_finish wrap requestedSize minScoreN run =
     (fst run,
      case snd run of
        Inl e \<Rightarrow> assoc_error e
      | Inr st \<Rightarrow>
          Returns \<lparr>content = wrap (assoc_body_of requestedSize minScoreN st),
                   isError = False\<rparr>)"

definition handleGetTargetDiseaseAssociations ::
  "'e upstream \<Rightarrow> tool_args \<Rightarrow> page_request list \<times> 'e assoc_content outcome" where
  "handleGetTargetDiseaseAssociations post args =
     (if \<not> isValidAssociationArgs args
      then ([], Throws (InvalidParams ''Invalid association arguments''))
      else
        case (as_number (js_or (size_arg args) (JNum 100)),
              as_number (js_or (minScore args) (JNum 0))) of
          (Some requestedSize, Some minScoreN) \<Rightarrow>
            if truthy (targetId args) \<and> \<not> truthy (diseaseId args) then
              assoc_finish TargetAssociations requestedSize minScoreN
                (fetchAllPages post GetTargetAssociations (targetId args)
                   requestedSize initial_state)
            else if truthy (diseaseId args) \<and> \<not> truthy (targetId args) then
              assoc_finish DiseaseAssociations requestedSize minScoreN
                (fetchAllPages post GetDiseaseAssociations (diseaseId args)
                   requestedSize initial_state)
            else ([], Returns \<lparr>content = NotImplemented, isError = False\<rparr>)
        | _ \<Rightarrow> ([], Unmodelled))"

section \<open>Disease targets summary\<close>

record target_ref =
  target_id :: string
  approvedSymbol :: string
  approvedName :: string

record summary_target =
  targetId_out :: string
  targetSymbol :: string
  targetName :: string
  associationScore :: rat

record summary =
  sum_diseaseId :: jsval
  diseaseName :: string
  totalTargets :: int
  returnedTargets :: nat
  targets :: "summary_target list"
  sum_pagination :: pagination

datatype summary_content = Summary summary | SummaryErrorText string

definition summary_target_of :: "target_ref assoc_row \<Rightarrow> summary_target" where
  "summary_target_of assoc =
     \<lparr>targetId_out = target_id (counterpart assoc),
      targetSymbol = approvedSymbol (counterpart assoc),
      targetName = approvedName (counterpart assoc),
      associationScore = score assoc\<rparr>"

definition summary_of :: "jsval \<Rightarrow> rat \<Rightarrow> rat \<Rightarrow> target_ref agg_state \<Rightarrow> summary" where
  "summary_of dId requestedSize minScoreN st =
     (let filteredRows = filterRows minScoreN (allRows st);
          limitedRows = slice0 filteredRows requestedSize
      in \<lparr>sum_diseaseId = dId,
          diseaseName = (case entityName st of None \<Rightarrow> ''Unknown''
                         | Some n \<Rightarrow> if n = [] then ''Unknown'' else n),
          totalTargets = totalCount st,
          returnedTargets = length limitedRows,
          targets = map summary_target_of limitedRows,
          sum_pagination =
            \<lparr>requested = requestedSize,
             returned = length limitedRows,
             total = totalCount st,
             filtered = length filteredRows\<rparr>\<rparr>)"

definition summary_error :: "thrown \<Rightarrow> summary_content outcome" where
  "summary_error e =
     Returns \<lparr>content = SummaryErrorText
                (''Error getting disease targets summary: '' @ error_message e),
              isError = True\<rparr>"

definition summary_finish ::
  "jsval \<Rightarrow> rat \<Rightarrow> rat \<Rightarrow> page_request list \<times> (thrown + target_ref agg_state)
     \<Rightarrow> page_request list \<times> summary_content outcome" where
  "summary_finish dId requestedSize minScoreN run =
     (fst run,
      case snd run of
        Inl e \<Rightarrow> summary_error e
      | Inr st \<Rightarrow>
          Returns \<lparr>content = Summary (summary_of dId requestedSize minScoreN st),
                   isError = False\<rparr>)"

definition handleGetDiseaseTargetsSummary ::
  "target_ref upstream \<Rightarrow> tool_args \<Rightarrow> page_request list \<times> summary_content outcome" where
  "handleGetDiseaseTargetsSummary post args =
     (if \<not> isValidIdArgs args \<and> \<not> truthy (diseaseId args)
      then ([], Throws (InvalidParams ''Disease ID is required''))
      else
        let dId = js_or (diseaseId args) (id_arg args)
        in case (as_number (js_or (size_arg args) (JNum 50)),
                 as_number (js_or (minScore args) (JNum 0))) of
             (Some requestedSize, Some minScoreN) \<Rightarrow>
               summary_finish dId requestedSize minScoreN
                 (fetchAllPages post GetDiseaseTargetsSummary dId requestedSize initial_state)
           | _ \<Rightarrow> ([], Unmodelled))"

section \<open>Search\<close>

datatype search_entity = EntTarget | EntDisease

record search_request =
  sreq_entity :: search_entity
  sreq_queryString :: jsval

text \<open>
  The response body of a search: \<^verbatim>\<open>data?.search?.hits\<close> when it is there, and the other
  top-level fields of the body, which the handler copies into its result.
\<close>

record ('h, 'x) search_response =
  resp_hits :: "'h list option"
  resp_rest :: 'x

record ('h, 'x) search_result =
  res_rest :: 'x
  res_hits :: "'h list"
  res_total :: nat

datatype ('h, 'x) search_content = SearchData "('h, 'x) search_result" | SearchErrorText string

type_synonym ('h, 'x) search_upstream = "search_request \<Rightarrow> thrown + ('h, 'x) search_response"

definition hits_of :: "('h, 'x) search_response \<Rightarrow> 'h list" where
  "hits_of resp = (case resp_hits resp of None \<Rightarrow> [] | Some hs \<Rightarrow> hs)"

definition search_result_of :: "('h, 'x) search_response \<Rightarrow> rat \<Rightarrow> ('h, 'x) search_result" where
  "search_result_of resp sz =
     (let hits = hits_of resp;
          limitedHits = slice0 hits sz
      in \<lparr>res_rest = resp_rest resp, res_hits = limitedHits, res_total = length hits\<rparr>)"

definition handleSearchTargets ::
  "('h, 'x) search_upstream \<Rightarrow> tool_args
     \<Rightarrow> search_request list \<times> ('h, 'x) search_content outcome" where
  "handleSearchTargets post args =
     (if \<not> isValidTargetSearchArgs args
      then ([], Throws (InvalidParams ''Invalid target search arguments''))
      else
        let req = \<lparr>sreq_entity = EntTarget, sreq_queryString = query args\<rparr>
        in case post req of
             Inl e \<Rightarrow>
               ([req], Returns \<lparr>content = SearchErrorText
                          (''Error searching targets: '' @ error_message e),
                        isError = True\<rparr>)
           | Inr resp \<Rightarrow>
               (case as_number (js_or (size_arg args) (JNum 25)) of
                  Some sz \<Rightarrow>
                    ([req], Returns \<lparr>content = SearchData (search_result_of resp sz),
                                    isError = False\<rparr>)
                | None \<Rightarrow> ([req], Unmodelled)))"

definition handleSearchDiseases ::
  "('h, 'x) search_upstream \<Rightarrow> tool_args
     \<Rightarrow> search_request list \<times> ('h, 'x) search_content outcome" where
  "handleSearchDiseases post args =
     (if \<not> isValidDiseaseSearchArgs args
      then ([], Throws (InvalidParams ''Invalid disease search arguments''))
      else
        let req = \<lparr>sreq_entity = EntDisease, sreq_queryString = query args\<rparr>
        in case post req of
             Inl e \<Rightarrow>
               ([req], Returns \<lparr>content = SearchErrorText
                          (''Error searching diseases: '' @ error_message e),
                        isError = True\<rparr>)
           | Inr resp \<Rightarrow>
               (case as_number (js_or (size_arg args) (JNum 25)) of
                  Some sz \<Rightarrow>
                    ([req], Returns \<lparr>content = SearchData (search_result_of resp sz),
                                    isError = False\<rparr>)
                | None \<Rightarrow> ([req], Unmodelled)))"


section \<open>What a successful response carries\<close>

text \<open>
  The body of a successful association lookup (either direction), the summary of a
  successful summary call and the result of a successful search; \<open>None\<close> for an error
  envelope, the stub message, a thrown error and an unmodelled run.
\<close>

fun returned_body :: "'e assoc_content outcome \<Rightarrow> 'e assoc_body option" where
  "returned_body (Returns r) =
     (if isError r then None
      else case content r of
             TargetAssociations b \<Rightarrow> Some b
           | DiseaseAssociations b \<Rightarrow> Some b
           | _ \<Rightarrow> None)"
| "returned_body _ = None"

fun returned_summary :: "summary_content outcome \<Rightarrow> summary option" where
  "returned_summary (Returns r) =
     (if isError r then None
      else case content r of Summary s \<Rightarrow> Some s | _ \<Rightarrow> None)"
| "returned_summary _ = None"

fun returned_search :: "('h, 'x) search_content outcome \<Rightarrow> ('h, 'x) search_result option" where
  "returned_search (Returns r) =
     (if isError r then None
      else case content r of SearchData d \<Rightarrow> Some d | _ \<Rightarrow> None)"
| "returned_search _ = None"

text \<open>
  The invariant of the pagination summary in the words of the specification, and as the
  code keeps it (the requested size counts by its integer part).
\<close>

definition pagination_as_claimed :: "pagination \<Rightarrow> nat \<Rightarrow> bool" where
  "pagination_as_claimed p n =
     (of_nat (returned p) = min (requested p) (of_nat (filtered p)) \<and>
      returned p = n \<and>
      of_nat (returned p) \<le> requested p)"

definition pagination_consistent :: "pagination \<Rightarrow> nat \<Rightarrow> bool" where
  "pagination_consistent p n =
     (int (returned p) = min \<lfloor>requested p\<rfloor> (int (filtered p)) \<and>
      returned p = n \<and>
      of_nat (returned p) \<le> requested p)"

section \<open>Sample inputs\<close>

text \<open>
  An upstream that serves a fixed dataset of an entity called \<open>label\<close> as the GraphQL
  endpoint does: page \<open>index\<close> of
  size \<open>size\<close> is rows \<open>index * size\<close> up to \<open>(index + 1) * size\<close>, and every page
  reports the size of the whole dataset as \<open>count\<close>.
\<close>

definition dataset_upstream :: "string \<Rightarrow> 'e assoc_row list \<Rightarrow> 'e upstream" where
  "dataset_upstream label ds req =
     Inr \<lparr>gql_errors = [],
          gql_data = Some
            \<lparr>ent_id = (case req_id req of JStr s \<Rightarrow> Some s | _ \<Rightarrow> None),
             ent_label = Some label,
             ent_assoc = Some \<lparr>count = Some (int (length ds)),
                rows = Some (take (req_size req) (drop (req_offset req * req_size req) ds))\<rparr>\<rparr>\<rparr>"

text \<open>
  The same upstream, except that every request for page \<open>k\<close> or later is answered with
  status 200 and a body that has a GraphQL error and no data.
\<close>

definition graphql_error_from :: "nat \<Rightarrow> 'e upstream \<Rightarrow> 'e upstream" where
  "graphql_error_from k up req =
     (if k \<le> req_offset req
      then Inr \<lparr>gql_errors = [''Internal server error''], gql_data = None\<rparr>
      else up req)"

text \<open>An upstream with the errors array of every body it answers with replaced.\<close>

definition with_errors :: "(page_request \<Rightarrow> string list) \<Rightarrow> 'e upstream \<Rightarrow> 'e upstream" where
  "with_errors errs up req =
     (case up req of Inl e \<Rightarrow> Inl e | Inr resp \<Rightarrow> Inr (resp\<lparr>gql_errors := errs req\<rparr>))"

text \<open>
  The number of pages that a lookup of size \<open>R\<close> takes from a dataset of \<open>T\<close> rows: the
  first count, from 1 on, at which the pages hold \<open>R\<close> rows or the whole dataset.
\<close>

definition pages_needed :: "rat \<Rightarrow> nat \<Rightarrow> nat" where
  "pages_needed R T = max 1 (nat \<lceil>min R (of_nat T) / 100\<rceil>)"

text \<open>The same upstream, except that every request for page \<open>k\<close> or later times out.\<close>

definition failing_from :: "nat \<Rightarrow> 'e upstream \<Rightarrow> 'e upstream" where
  "failing_from k up req =
     (if k \<le> req_offset req then Inl (Error ''timeout of 30000ms exceeded'') else up req)"

text \<open>
  An upstream whose first page describes BRCA1 with 250 associations and whose later
  pages report another identifier, another symbol and another total. Every page is full.
\<close>

definition shifting_upstream :: "unit upstream" where
  "shifting_upstream req =
     (if req_offset req = 0
      then Inr \<lparr>gql_errors = [],
                gql_data = Some
                  \<lparr>ent_id = Some ''ENSG00000012048'', ent_label = Some ''BRCA1'',
                   ent_assoc = Some \<lparr>count = Some 250,
                      rows = Some (replicate 100 \<lparr>counterpart = (), score = 1\<rparr>)\<rparr>\<rparr>\<rparr>
      else Inr \<lparr>gql_errors = [],
                gql_data = Some
                  \<lparr>ent_id = Some ''ENSG00000139618'', ent_label = Some ''BRCA2'',
                   ent_assoc = Some \<lparr>count = Some 999,
                      rows = Some (replicate 100 \<lparr>counterpart = (), score = 1\<rparr>)\<rparr>\<rparr>\<rparr>)"

text \<open>A search endpoint that answers every query with the same hits.\<close>

definition hits_upstream :: "'h list \<Rightarrow> ('h, unit) search_upstream" where
  "hits_upstream hs req = Inr \<lparr>resp_hits = Some hs, resp_rest = ()\<rparr>"

definition no_args :: tool_args where
  "no_args = \<lparr>query = JUndefined, targetId = JUndefined, diseaseId = JUndefined,
              minScore = JUndefined, id_arg = JUndefined, size_arg = JUndefined,
              format = JUndefined\<rparr>"

definition scored :: "rat \<Rightarrow> unit assoc_row" where
  "scored s = \<lparr>counterpart = (), score = s\<rparr>"

definition brca1 :: jsval where
  "brca1 = JStr ''ENSG00000012048''"

definition breast_cancer :: jsval where
  "breast_cancer = JStr ''EFO_0000305''"

definition target_row :: "string \<Rightarrow> rat \<Rightarrow> target_ref assoc_row" where
  "target_row symb s =
     \<lparr>counterpart = \<lparr>target_id = ''ENSG'' @ symb, approvedSymbol = symb, approvedName = symb\<rparr>,
      score = s\<rparr>"

section \<open>Properties of the pagination loop\<close>

declare fetchAllPages.simps [simp del]

lemma fetchAllPages_fail:
  "post (request_at q ident (pageIndex st)) = Inl e \<Longrightarrow>
   fetchAllPages post q ident R st = ([request_at q ident (pageIndex st)], Inl e)"
  by (subst fetchAllPages.simps) simp

lemma fetchAllPages_stop:
  "post (request_at q ident (pageIndex st)) = Inr resp \<Longrightarrow>
   \<not> hasMore resp R (page_step resp st) \<Longrightarrow>
   fetchAllPages post q ident R st = ([request_at q ident (pageIndex st)], Inr (page_step resp st))"
  by (subst fetchAllPages.simps) simp

lemma fetchAllPages_more:
  "post (request_at q ident (pageIndex st)) = Inr resp \<Longrightarrow>
   hasMore resp R (page_step resp st) \<Longrightarrow>
   fetchAllPages post q ident R st =
     (request_at q ident (pageIndex st) # fst (fetchAllPages post q ident R (page_step resp st)),
      snd (fetchAllPages post q ident R (page_step resp st)))"
  by (subst fetchAllPages.simps) (simp add: split_beta)

lemma fetchAllPages_cases [consumes 0, case_names Fail Stop More]:
  assumes "\<And>e. post (request_at q ident (pageIndex st)) = Inl e \<Longrightarrow> P"
    and "\<And>resp. post (request_at q ident (pageIndex st)) = Inr resp \<Longrightarrow>
           \<not> hasMore resp R (page_step resp st) \<Longrightarrow> P"
    and "\<And>resp. post (request_at q ident (pageIndex st)) = Inr resp \<Longrightarrow>
           hasMore resp R (page_step resp st) \<Longrightarrow> P"
  shows P
  using assms by (cases "post (request_at q ident (pageIndex st))") blast+

lemma fetchAllPages_induct [case_names step]:
  fixes post :: "'e upstream"
  assumes step: "\<And>st. (\<And>resp. post (request_at q ident (pageIndex st)) = Inr resp \<Longrightarrow>
                    hasMore resp R (page_step resp st) \<Longrightarrow> P (page_step resp st)) \<Longrightarrow> P st"
  shows "P st"
proof -
  have "post' = post \<Longrightarrow> q' = q \<Longrightarrow> ident' = ident \<Longrightarrow> R' = R \<Longrightarrow> P st"
    for post' q' ident' R'
  proof (induction post' q' ident' R' st rule: fetchAllPages.induct)
    case (1 post' q' ident' R' st)
    show ?case
    proof (rule step)
      fix resp
      assume "post (request_at q ident (pageIndex st)) = Inr resp"
        and "hasMore resp R (page_step resp st)"
      then show "P (page_step resp st)"
        using "1.IH"[OF refl] "1.prems" by simp
    qed
  qed
  then show ?thesis by simp
qed

lemma allRows_page_step: "allRows (page_step resp st) = allRows st @ rows_of resp"
  by (simp add: page_step_def Let_def)

lemma pageIndex_page_step: "pageIndex (page_step resp st) = Suc (pageIndex st)"
  by (simp add: page_step_def Let_def)

lemma page_step_first:
  "pageIndex st = 0 \<Longrightarrow>
   totalCount (page_step resp st) = count_of resp \<and>
   entityId (page_step resp st) = Option.bind (gql_data resp) ent_id \<and>
   entityName (page_step resp st) = Option.bind (gql_data resp) ent_label"
  by (simp add: page_step_def Let_def)

lemma page_step_later:
  "pageIndex st \<noteq> 0 \<Longrightarrow>
   totalCount (page_step resp st) = totalCount st \<and>
   entityId (page_step resp st) = entityId st \<and>
   entityName (page_step resp st) = entityName st"
  by (simp add: page_step_def Let_def)

lemma hasMore_length:
  "hasMore resp R (page_step resp st) \<Longrightarrow> of_nat (length (allRows st)) + 100 < R"
  by (simp add: hasMore_def allRows_page_step pageSize_def)

text \<open>The number of requests, from any point of the loop on.\<close>

lemma fetch_trace_bound:
  "int (length (fst (fetchAllPages post q ident R st)))
     \<le> max 1 \<lceil>(R - of_nat (length (allRows st))) / 100\<rceil>"
proof (induction st rule: fetchAllPages_induct[of post q ident R])
  case (step st)
  show ?case
  proof (cases rule: fetchAllPages_cases[of post q ident st _ R])
    case (Fail e)
    then show ?thesis by (simp add: fetchAllPages_fail)
  next
    case (Stop resp)
    then show ?thesis by (simp add: fetchAllPages_stop)
  next
    case (More resp)
    from More(2) have full: "length (rows_of resp) = 100"
      by (simp add: hasMore_def pageSize_def)
    from More(2) have lt: "of_nat (length (allRows st)) + 100 < R"
      by (rule hasMore_length)
    have eq: "(R - of_nat (length (allRows (page_step resp st)))) / 100
              = (R - of_nat (length (allRows st))) / 100 - 1"
      using full by (simp add: allRows_page_step field_simps)
    have "1 < (R - of_nat (length (allRows st))) / 100"
      using lt by simp
    then have c2: "2 \<le> \<lceil>(R - of_nat (length (allRows st))) / 100\<rceil>"
      by (simp add: le_ceiling_iff)
    have "length (fst (fetchAllPages post q ident R st))
          = Suc (length (fst (fetchAllPages post q ident R (page_step resp st))))"
      by (simp add: fetchAllPages_more[where post=post, OF More])
    with step.IH[OF More] eq c2 show ?thesis by simp
  qed
qed

lemma fetch_trace_nonempty: "fst (fetchAllPages post q ident R st) \<noteq> []"
  by (cases rule: fetchAllPages_cases[of post q ident st _ R])
    (simp_all add: fetchAllPages_fail fetchAllPages_stop fetchAllPages_more)

lemma fetch_trace_hd:
  "hd (fst (fetchAllPages post q ident R st)) = request_at q ident (pageIndex st)"
  by (cases rule: fetchAllPages_cases[of post q ident st _ R])
    (simp_all add: fetchAllPages_fail fetchAllPages_stop fetchAllPages_more)

lemma fetch_single:
  assumes "R \<le> of_nat (length (allRows st)) + 100"
  shows "length (fst (fetchAllPages post q ident R st)) = 1"
proof (cases rule: fetchAllPages_cases[of post q ident st _ R])
  case (Fail e)
  then show ?thesis by (simp add: fetchAllPages_fail)
next
  case (Stop resp)
  then show ?thesis by (simp add: fetchAllPages_stop)
next
  case (More resp)
  with hasMore_length[OF More(2)] assms show ?thesis by simp
qed

lemma fetch_failure_is_result:
  "req \<in> set (fst (fetchAllPages post q ident R st)) \<Longrightarrow> post req = Inl e \<Longrightarrow>
   snd (fetchAllPages post q ident R st) = Inl e"
proof (induction st rule: fetchAllPages_induct[of post q ident R])
  case (step st)
  show ?case
  proof (cases rule: fetchAllPages_cases[of post q ident st _ R])
    case (Fail e')
    with step.prems show ?thesis by (simp add: fetchAllPages_fail)
  next
    case (Stop resp)
    with step.prems show ?thesis by (simp add: fetchAllPages_stop)
  next
    case (More resp)
    from step.prems More step.IH[OF More] show ?thesis
      by (auto simp: fetchAllPages_more)
  qed
qed

lemma fetch_trace_shape:
  "fst (fetchAllPages post q ident R st)
     = map (request_at q ident)
         [pageIndex st ..< pageIndex st + length (fst (fetchAllPages post q ident R st))]"
proof (induction st rule: fetchAllPages_induct[of post q ident R])
  case (step st)
  show ?case
  proof (cases rule: fetchAllPages_cases[of post q ident st _ R])
    case (Fail e')
    then show ?thesis by (simp add: fetchAllPages_fail)
  next
    case (Stop resp)
    then show ?thesis by (simp add: fetchAllPages_stop)
  next
    case (More resp)
    let ?tr = "fst (fetchAllPages post q ident R (page_step resp st))"
    have IH: "?tr = map (request_at q ident)
                      [Suc (pageIndex st) ..< Suc (pageIndex st) + length ?tr]"
      using step.IH[OF More] by (simp only: pageIndex_page_step)
    have "[pageIndex st ..< pageIndex st + Suc (length ?tr)]
          = pageIndex st # [Suc (pageIndex st) ..< Suc (pageIndex st) + length ?tr]"
      by (subst upt_conv_Cons) simp_all
    then have "map (request_at q ident) [pageIndex st ..< pageIndex st + Suc (length ?tr)]
          = request_at q ident (pageIndex st) # ?tr"
      using IH by simp
    then show ?thesis
      by (simp add: fetchAllPages_more[where post=post, OF More])
  qed
qed

lemma fetch_allRows:
  "fetchAllPages post q ident R st = (tr, Inr st') \<Longrightarrow>
   allRows st' = allRows st @ rows_served post tr"
proof (induction st arbitrary: tr rule: fetchAllPages_induct[of post q ident R])
  case (step st)
  show ?case
  proof (cases rule: fetchAllPages_cases[of post q ident st _ R])
    case (Fail e')
    with step.prems show ?thesis by (simp add: fetchAllPages_fail)
  next
    case (Stop resp)
    with step.prems show ?thesis
      by (auto simp: fetchAllPages_stop rows_served_def allRows_page_step)
  next
    case (More resp)
    obtain tr' where tr': "fetchAllPages post q ident R (page_step resp st) = (tr', Inr st')"
      and tr: "tr = request_at q ident (pageIndex st) # tr'"
      using step.prems by (cases "fetchAllPages post q ident R (page_step resp st)")
        (auto simp: fetchAllPages_more[where post=post, OF More])
    from step.IH[OF More tr'] tr More(1) show ?thesis
      by (simp add: rows_served_def allRows_page_step)
  qed
qed

lemma fetch_keeps_captured:
  "fetchAllPages post q ident R st = (tr, Inr st') \<Longrightarrow> pageIndex st \<noteq> 0 \<Longrightarrow>
   totalCount st' = totalCount st \<and> entityId st' = entityId st \<and> entityName st' = entityName st"
proof (induction st arbitrary: tr rule: fetchAllPages_induct[of post q ident R])
  case (step st)
  show ?case
  proof (cases rule: fetchAllPages_cases[of post q ident st _ R])
    case (Fail e')
    with step.prems show ?thesis by (simp add: fetchAllPages_fail)
  next
    case (Stop resp)
    with step.prems show ?thesis
      by (auto simp: fetchAllPages_stop page_step_later)
  next
    case (More resp)
    obtain tr' where tr': "fetchAllPages post q ident R (page_step resp st) = (tr', Inr st')"
      using step.prems by (cases "fetchAllPages post q ident R (page_step resp st)")
        (auto simp: fetchAllPages_more[where post=post, OF More])
    from step.IH[OF More tr'] step.prems(2) show ?thesis
      by (simp add: pageIndex_page_step page_step_later)
  qed
qed

lemma fetch_first_page:
  assumes run: "fetchAllPages post q ident R st = (tr, Inr st')" and first: "pageIndex st = 0"
  shows "\<exists>resp0. post (request_at q ident 0) = Inr resp0 \<and>
           totalCount st' = count_of resp0 \<and>
           entityId st' = Option.bind (gql_data resp0) ent_id \<and>
           entityName st' = Option.bind (gql_data resp0) ent_label"
proof (cases rule: fetchAllPages_cases[of post q ident st _ R])
  case (Fail e')
  with run show ?thesis by (simp add: fetchAllPages_fail)
next
  case (Stop resp)
  with run first show ?thesis
    by (auto simp: fetchAllPages_stop page_step_first)
next
  case (More resp)
  obtain tr' where tr': "fetchAllPages post q ident R (page_step resp st) = (tr', Inr st')"
    using run by (cases "fetchAllPages post q ident R (page_step resp st)")
      (auto simp: fetchAllPages_more[where post=post, OF More])
  have "pageIndex (page_step resp st) \<noteq> 0" by (simp add: pageIndex_page_step)
  from fetch_keeps_captured[OF tr' this] More(1) first show ?thesis
    by (simp add: page_step_first)
qed

section \<open>Slicing and filtering\<close>

lemma slice0_nonneg: "0 \<le> R \<Longrightarrow> slice0 xs R = take (nat \<lfloor>R\<rfloor>) xs"
  by (simp add: slice0_def js_trunc_def Let_def)

lemma length_slice0_nonneg:
  assumes "0 \<le> R"
  shows "int (length (slice0 xs R)) = min \<lfloor>R\<rfloor> (int (length xs))"
proof -
  have "0 \<le> \<lfloor>R\<rfloor>" using assms by simp
  then have "int (min (length xs) (nat \<lfloor>R\<rfloor>)) = min \<lfloor>R\<rfloor> (int (length xs))"
    by linarith
  then show ?thesis using assms by (simp add: slice0_nonneg)
qed

lemma length_slice0_le:
  assumes "0 \<le> R" shows "of_nat (length (slice0 xs R)) \<le> R"
proof -
  have "int (length (slice0 xs R)) \<le> \<lfloor>R\<rfloor>"
    using assms by (simp add: length_slice0_nonneg)
  then have "of_int (int (length (slice0 xs R))) \<le> R"
    by (simp only: le_floor_iff)
  then show ?thesis by simp
qed

section \<open>The branches of the handlers\<close>

lemma valid_size_number:
  assumes "valid_size_50000 v" and "0 < d"
  obtains R where "as_number (js_or v (JNum d)) = Some R" and "0 < R"
    and "v = JUndefined \<and> R = d \<or> v = JNum R \<and> R \<le> 50000"
  using assms by (cases v) (auto simp: valid_size_50000_def js_or_def)

lemma js_or_zero: "js_or (JNum x) (JNum 0) = JNum x"
  by (simp add: js_or_def)

lemma valid_minScore_number:
  assumes "valid_minScore v"
  shows "\<exists>m. as_number (js_or v (JNum 0)) = Some m \<and> 0 \<le> m \<and> m \<le> 1"
proof (cases v)
  case JUndefined
  then show ?thesis by (simp add: js_or_def)
next
  case (JNum x)
  with assms show ?thesis by (simp add: valid_minScore_def js_or_zero)
qed (use assms in \<open>simp_all add: valid_minScore_def\<close>)

lemma assoc_handler_cases [case_names Invalid Target Disease Stub]:
  fixes post :: "'e upstream"
  obtains
    (Invalid) "\<not> isValidAssociationArgs args"
      and "handleGetTargetDiseaseAssociations post args
           = ([], Throws (InvalidParams ''Invalid association arguments''))"
  | (Target) R m where "isValidAssociationArgs args"
      and "as_number (js_or (size_arg args) (JNum 100)) = Some R" and "0 < R"
      and "as_number (js_or (minScore args) (JNum 0)) = Some m"
      and "truthy (targetId args)" and "\<not> truthy (diseaseId args)"
      and "handleGetTargetDiseaseAssociations post args
           = assoc_finish TargetAssociations R m
               (fetchAllPages post GetTargetAssociations (targetId args) R initial_state)"
  | (Disease) R m where "isValidAssociationArgs args"
      and "as_number (js_or (size_arg args) (JNum 100)) = Some R" and "0 < R"
      and "as_number (js_or (minScore args) (JNum 0)) = Some m"
      and "truthy (diseaseId args)" and "\<not> truthy (targetId args)"
      and "handleGetTargetDiseaseAssociations post args
           = assoc_finish DiseaseAssociations R m
               (fetchAllPages post GetDiseaseAssociations (diseaseId args) R initial_state)"
  | (Stub) "isValidAssociationArgs args"
      and "truthy (targetId args) = truthy (diseaseId args)"
      and "handleGetTargetDiseaseAssociations post args
           = ([], Returns \<lparr>content = NotImplemented, isError = False\<rparr>)"
proof (cases "isValidAssociationArgs args")
  case False
  then show ?thesis
    using Invalid by (simp add: handleGetTargetDiseaseAssociations_def)
next
  case True
  then have vs: "valid_size_50000 (size_arg args)" and vm: "valid_minScore (minScore args)"
    by (simp_all add: isValidAssociationArgs_def)
  from vs obtain R where R: "as_number (js_or (size_arg args) (JNum 100)) = Some R" "0 < R"
    by (rule valid_size_number[where d = 100]) simp_all
  from valid_minScore_number[OF vm]
  obtain m where m: "as_number (js_or (minScore args) (JNum 0)) = Some m"
    by blast
  consider (t) "truthy (targetId args)" "\<not> truthy (diseaseId args)"
    | (d) "truthy (diseaseId args)" "\<not> truthy (targetId args)"
    | (s) "truthy (targetId args) = truthy (diseaseId args)"
    by blast
  then show ?thesis
  proof cases
    case t
    have "handleGetTargetDiseaseAssociations post args
           = assoc_finish TargetAssociations R m
               (fetchAllPages post GetTargetAssociations (targetId args) R initial_state)"
      using True R m t
      by (simp add: handleGetTargetDiseaseAssociations_def)
    with True R m t show ?thesis by (rule Target)
  next
    case d
    have "handleGetTargetDiseaseAssociations post args
           = assoc_finish DiseaseAssociations R m
               (fetchAllPages post GetDiseaseAssociations (diseaseId args) R initial_state)"
      using True R m d
      by (simp add: handleGetTargetDiseaseAssociations_def)
    with True R m d show ?thesis by (rule Disease)
  next
    case s
    have "handleGetTargetDiseaseAssociations post args
           = ([], Returns \<lparr>content = NotImplemented, isError = False\<rparr>)"
      using True R m s
      by (auto simp add: handleGetTargetDiseaseAssociations_def)
    with True s show ?thesis by (rule Stub)
  qed
qed


lemma summary_handler_cases [case_names Invalid NotNumber Run]:
  obtains
    (Invalid) "\<not> isValidIdArgs args" and "\<not> truthy (diseaseId args)"
      and "handleGetDiseaseTargetsSummary post args
           = ([], Throws (InvalidParams ''Disease ID is required''))"
  | (NotNumber) "isValidIdArgs args \<or> truthy (diseaseId args)"
      and "as_number (js_or (size_arg args) (JNum 50)) = None
           \<or> as_number (js_or (minScore args) (JNum 0)) = None"
      and "handleGetDiseaseTargetsSummary post args = ([], Unmodelled)"
  | (Run) R m where "isValidIdArgs args \<or> truthy (diseaseId args)"
      and "as_number (js_or (size_arg args) (JNum 50)) = Some R"
      and "as_number (js_or (minScore args) (JNum 0)) = Some m"
      and "handleGetDiseaseTargetsSummary post args
           = summary_finish (js_or (diseaseId args) (id_arg args)) R m
               (fetchAllPages post GetDiseaseTargetsSummary
                  (js_or (diseaseId args) (id_arg args)) R initial_state)"
proof (cases "\<not> isValidIdArgs args \<and> \<not> truthy (diseaseId args)")
  case True
  then show ?thesis
    using Invalid by (simp add: handleGetDiseaseTargetsSummary_def)
next
  case False
  then have ok: "isValidIdArgs args \<or> truthy (diseaseId args)" by blast
  show ?thesis
  proof (cases "as_number (js_or (size_arg args) (JNum 50))")
    case None
    with False have "handleGetDiseaseTargetsSummary post args = ([], Unmodelled)"
      by (auto simp add: handleGetDiseaseTargetsSummary_def Let_def)
    with ok None show ?thesis using NotNumber by blast
  next
    case (Some R)
    show ?thesis
    proof (cases "as_number (js_or (minScore args) (JNum 0))")
      case None
      with False Some have "handleGetDiseaseTargetsSummary post args = ([], Unmodelled)"
        by (auto simp add: handleGetDiseaseTargetsSummary_def Let_def)
      with ok None show ?thesis using NotNumber by blast
    next
      case m: (Some m)
      with False Some have "handleGetDiseaseTargetsSummary post args
           = summary_finish (js_or (diseaseId args) (id_arg args)) R m
               (fetchAllPages post GetDiseaseTargetsSummary
                  (js_or (diseaseId args) (id_arg args)) R initial_state)"
        by (auto simp add: handleGetDiseaseTargetsSummary_def Let_def)
      with ok Some m show ?thesis using Run by blast
    qed
  qed
qed

lemma assoc_finish_success:
  assumes "returned_body (snd (assoc_finish wrap R m run)) = Some b"
    and "wrap = TargetAssociations \<or> wrap = DiseaseAssociations"
  obtains st where "run = (fst run, Inr st)" and "b = assoc_body_of R m st"
  using assms
  by (cases run; cases "snd run")
    (auto simp: assoc_finish_def assoc_error_def)

lemma summary_finish_success:
  assumes "returned_summary (snd (summary_finish dId R m run)) = Some s"
  obtains st where "run = (fst run, Inr st)" and "s = summary_of dId R m st"
  using assms
  by (cases run; cases "snd run")
    (auto simp: summary_finish_def summary_error_def)

text \<open>A successful association lookup, traced back to the run of its loop.\<close>

lemma assoc_success_run:
  fixes post :: "'e upstream"
  assumes "returned_body (snd (handleGetTargetDiseaseAssociations post args)) = Some b"
  obtains q ident R m st where
    "as_number (js_or (size_arg args) (JNum 100)) = Some R" and "0 < R"
    and "as_number (js_or (minScore args) (JNum 0)) = Some m"
    and "fetchAllPages post q ident R initial_state
         = (fst (handleGetTargetDiseaseAssociations post args), Inr st)"
    and "b = assoc_body_of R m st"
proof (cases rule: assoc_handler_cases[of args post])
  case Invalid
  with assms show ?thesis by simp
next
  case (Target R m)
  from assms Target(7) obtain st where
    "fetchAllPages post GetTargetAssociations (targetId args) R initial_state
       = (fst (fetchAllPages post GetTargetAssociations (targetId args) R initial_state), Inr st)"
    and "b = assoc_body_of R m st"
    by (auto elim!: assoc_finish_success)
  with Target show ?thesis
    by (intro that[of R m GetTargetAssociations "targetId args" st])
      (simp_all add: assoc_finish_def)
next
  case (Disease R m)
  from assms Disease(7) obtain st where
    "fetchAllPages post GetDiseaseAssociations (diseaseId args) R initial_state
       = (fst (fetchAllPages post GetDiseaseAssociations (diseaseId args) R initial_state), Inr st)"
    and "b = assoc_body_of R m st"
    by (auto elim!: assoc_finish_success)
  with Disease show ?thesis
    by (intro that[of R m GetDiseaseAssociations "diseaseId args" st])
      (simp_all add: assoc_finish_def)
next
  case Stub
  with assms show ?thesis by simp
qed

lemma summary_success_run:
  assumes "returned_summary (snd (handleGetDiseaseTargetsSummary post args)) = Some s"
  obtains R m st where
    "as_number (js_or (size_arg args) (JNum 50)) = Some R"
    and "as_number (js_or (minScore args) (JNum 0)) = Some m"
    and "fetchAllPages post GetDiseaseTargetsSummary
           (js_or (diseaseId args) (id_arg args)) R initial_state
         = (fst (handleGetDiseaseTargetsSummary post args), Inr st)"
    and "s = summary_of (js_or (diseaseId args) (id_arg args)) R m st"
proof (cases rule: summary_handler_cases[of args post])
  case Invalid
  with assms show ?thesis by simp
next
  case NotNumber
  with assms show ?thesis by simp
next
  case (Run R m)
  from assms Run(4) obtain st where
    "fetchAllPages post GetDiseaseTargetsSummary (js_or (diseaseId args) (id_arg args)) R
        initial_state
       = (fst (fetchAllPages post GetDiseaseTargetsSummary
                 (js_or (diseaseId args) (id_arg args)) R initial_state), Inr st)"
    and "s = summary_of (js_or (diseaseId args) (id_arg args)) R m st"
    by (auto elim!: summary_finish_success)
  with Run show ?thesis
    by (intro that[of R m st]) (simp_all add: summary_finish_def)
qed

text \<open>
  On arguments that pass its guard, the lookup reads \<open>size\<close> and \<open>minScore\<close> as numbers
  or not at all, so no run of it is left unmodelled.
\<close>

lemma association_always_modelled:
  fixes post :: "'e upstream"
  shows "snd (handleGetTargetDiseaseAssociations post args) \<noteq> Unmodelled"
proof (cases rule: assoc_handler_cases[of args post])
  case (Target R m)
  then show ?thesis
    by (cases "snd (fetchAllPages post GetTargetAssociations (targetId args) R initial_state)")
      (simp_all add: assoc_finish_def assoc_error_def)
next
  case (Disease R m)
  then show ?thesis
    by (cases "snd (fetchAllPages post GetDiseaseAssociations (diseaseId args) R initial_state)")
      (simp_all add: assoc_finish_def assoc_error_def)
qed simp_all

text \<open>The definitions that a run on a concrete input unfolds.\<close>

lemmas run_defs =
  handleGetTargetDiseaseAssociations_def handleGetDiseaseTargetsSummary_def
  isValidAssociationArgs_def isValidIdArgs_def valid_size_50000_def valid_minScore_def
  js_or_def no_args_def brca1_def breast_cancer_def assoc_finish_def summary_finish_def
  assoc_error_def summary_error_def error_message_def
  fetchAllPages.simps request_at_def pageSize_def failing_from_def dataset_upstream_def
  hasMore_def page_step_def initial_state_def rows_of_def count_of_def Let_def

section \<open>The rows of a lookup\<close>

lemma dataset_page:
  assumes "dataset_upstream label ds (request_at q ident k) = Inr resp"
  shows "rows_of resp = take 100 (drop (100 * k) ds)" and "count_of resp = int (length ds)"
  using assms
  by (auto simp: dataset_upstream_def request_at_def pageSize_def rows_of_def count_of_def
      mult.commute)

lemma dataset_answers:
  "\<exists>resp. dataset_upstream label ds req = Inr resp"
  by (simp add: dataset_upstream_def)

lemma pages_needed_less:
  "Suc k < pages_needed R T \<longleftrightarrow> of_nat (100 * Suc k) < R \<and> 100 * Suc k < T"
proof -
  have "Suc k < pages_needed R T \<longleftrightarrow> int (Suc k) < \<lceil>min R (of_nat T) / 100\<rceil>"
    by (auto simp: pages_needed_def)
  also have "\<dots> \<longleftrightarrow> of_int (int (Suc k)) < min R (of_nat T) / 100"
    by (simp only: less_ceiling_iff)
  also have "\<dots> \<longleftrightarrow> of_nat (100 * Suc k) < min R (rat_of_nat T)"
    by (simp add: field_simps)
  also have "\<dots> \<longleftrightarrow> of_nat (100 * Suc k) < R \<and> rat_of_nat (100 * Suc k) < rat_of_nat T"
    by (rule min_less_iff_conj)
  also have "\<dots> \<longleftrightarrow> of_nat (100 * Suc k) < R \<and> 100 * Suc k < T"
    by (simp only: of_nat_less_iff)
  finally show ?thesis .
qed

lemma pages_needed_covers:
  "min R (of_nat T) \<le> of_nat (100 * pages_needed R T)"
proof -
  have "min R (of_nat T) / 100 \<le> of_int \<lceil>min R (of_nat T) / 100\<rceil>"
    by (rule le_of_int_ceiling)
  also have "\<dots> \<le> of_int (int (pages_needed R T))"
    by (simp add: pages_needed_def)
  finally show ?thesis by simp
qed

text \<open>
  The stop rule against an upstream that serves a fixed dataset: after page \<open>k\<close> the
  loop goes on exactly when the pages so far hold fewer rows than \<open>R\<close> and fewer than
  the dataset.
\<close>

lemma dataset_hasMore:
  assumes page: "dataset_upstream label ds (request_at q ident (pageIndex st)) = Inr resp"
    and inv: "allRows st = take (100 * pageIndex st) ds"
    and tot: "pageIndex st \<noteq> 0 \<Longrightarrow> totalCount st = int (length ds)"
  shows "allRows (page_step resp st) = take (100 * Suc (pageIndex st)) ds"
    and "totalCount (page_step resp st) = int (length ds)"
    and "hasMore resp R (page_step resp st) \<longleftrightarrow> Suc (pageIndex st) < pages_needed R (length ds)"
proof -
  let ?k = "pageIndex st" and ?T = "length ds"
  have "100 * Suc ?k = 100 * ?k + 100" by simp
  then have "take (100 * Suc ?k) ds = take (100 * ?k + 100) ds"
    by (simp only:)
  also have "\<dots> = take (100 * ?k) ds @ take 100 (drop (100 * ?k) ds)"
    by (rule take_add)
  also have "\<dots> = allRows st @ rows_of resp"
    by (simp only: inv dataset_page(1)[OF page])
  finally show grow: "allRows (page_step resp st) = take (100 * Suc ?k) ds"
    by (simp only: allRows_page_step)
  show total: "totalCount (page_step resp st) = int ?T"
    using tot dataset_page(2)[OF page]
    by (cases "?k = 0") (simp_all add: page_step_first page_step_later)
  have rows: "length (rows_of resp) = min (?T - 100 * ?k) 100"
    by (simp add: dataset_page(1)[OF page])
  have len: "length (allRows (page_step resp st)) = min ?T (100 * Suc ?k)"
    by (simp add: grow)
  have "hasMore resp R (page_step resp st)
        \<longleftrightarrow> min (?T - 100 * ?k) 100 = 100 \<and> min ?T (100 * Suc ?k) < ?T
            \<and> rat_of_nat (min ?T (100 * Suc ?k)) < R"
    by (simp only: hasMore_def rows len total pageSize_def of_nat_less_iff)
  also have "\<dots> \<longleftrightarrow> of_nat (100 * Suc ?k) < R \<and> 100 * Suc ?k < ?T"
    by (auto simp: min_def)
  also have "\<dots> \<longleftrightarrow> Suc ?k < pages_needed R ?T"
    by (simp only: pages_needed_less)
  finally show "hasMore resp R (page_step resp st) \<longleftrightarrow> Suc ?k < pages_needed R ?T" .
qed

text \<open>
  So the loop fetches exactly \<open>pages_needed R T\<close> pages of a dataset of \<open>T\<close> rows and
  ends with the rows of these pages.
\<close>

lemma dataset_run:
  "allRows st = take (100 * pageIndex st) ds \<Longrightarrow>
   (pageIndex st \<noteq> 0 \<Longrightarrow> totalCount st = int (length ds)) \<Longrightarrow>
   pageIndex st < pages_needed R (length ds) \<Longrightarrow>
   \<exists>st'. snd (fetchAllPages (dataset_upstream label ds) q ident R st) = Inr st' \<and>
         allRows st' = take (100 * pages_needed R (length ds)) ds \<and>
         pageIndex st + length (fst (fetchAllPages (dataset_upstream label ds) q ident R st))
           = pages_needed R (length ds)"
proof (induction st rule: fetchAllPages_induct[of "dataset_upstream label ds" q ident R])
  case (step st)
  let ?up = "dataset_upstream label ds" and ?N = "pages_needed R (length ds)"
  show ?case
  proof (cases rule: fetchAllPages_cases[of ?up q ident st _ R])
    case (Fail e)
    with dataset_answers[where label = label and ds = ds
           and req = "request_at q ident (pageIndex st)"]
    show ?thesis by simp
  next
    case (Stop resp)
    note facts = dataset_hasMore[OF Stop(1) step.prems(1,2)]
    from Stop(2) facts(3) step.prems(3) have "Suc (pageIndex st) = ?N" by simp
    with facts(1) show ?thesis
      by (simp add: fetchAllPages_stop[where post = ?up, OF Stop])
  next
    case (More resp)
    note facts = dataset_hasMore[OF More(1) step.prems(1,2)]
    have "\<exists>st'. snd (fetchAllPages ?up q ident R (page_step resp st)) = Inr st' \<and>
            allRows st' = take (100 * ?N) ds \<and>
            pageIndex (page_step resp st)
              + length (fst (fetchAllPages ?up q ident R (page_step resp st))) = ?N"
    proof (rule step.IH[OF More])
      show "allRows (page_step resp st) = take (100 * pageIndex (page_step resp st)) ds"
        by (simp add: facts(1) pageIndex_page_step)
      show "totalCount (page_step resp st) = int (length ds)"
        by (rule facts(2))
      show "pageIndex (page_step resp st) < ?N"
        using More(2) facts(3) by (simp add: pageIndex_page_step)
    qed
    then show ?thesis
      by (simp add: fetchAllPages_more[where post = ?up, OF More] pageIndex_page_step)
  qed
qed

lemma dataset_run_from_start:
  fixes ds :: "'e assoc_row list"
  assumes "fetchAllPages (dataset_upstream label ds) q ident R initial_state = (tr, Inr st)"
  shows "length tr = pages_needed R (length ds)"
    and "allRows st = take (100 * pages_needed R (length ds)) ds"
proof -
  have "\<exists>st'. snd (fetchAllPages (dataset_upstream label ds) q ident R initial_state) = Inr st' \<and>
         allRows st' = take (100 * pages_needed R (length ds)) ds \<and>
         pageIndex (initial_state :: 'e agg_state)
           + length (fst (fetchAllPages (dataset_upstream label ds) q ident R initial_state))
           = pages_needed R (length ds)"
    by (rule dataset_run) (simp_all add: initial_state_def pages_needed_def)
  with assms show "length tr = pages_needed R (length ds)"
    and "allRows st = take (100 * pages_needed R (length ds)) ds"
    by (simp_all add: initial_state_def)
qed

text \<open>Cutting after filtering nothing, or after filtering the whole dataset.\<close>

lemma take_of_fetched_prefix:
  assumes "0 \<le> R"
  shows "take (nat \<lfloor>R\<rfloor>) (take (100 * pages_needed R (length ds)) ds) = take (nat \<lfloor>R\<rfloor>) ds"
proof (cases "R \<le> of_nat (length ds)")
  case True
  then have "min R (rat_of_nat (length ds)) = R" by (rule min_absorb1)
  with pages_needed_covers[of R "length ds"]
  have "R \<le> of_nat (100 * pages_needed R (length ds))" by (simp only:)
  moreover have "of_int \<lfloor>R\<rfloor> \<le> R" by (rule of_int_floor_le)
  ultimately have "of_int \<lfloor>R\<rfloor> \<le> rat_of_nat (100 * pages_needed R (length ds))"
    by (rule order_trans[rotated])
  then have "of_int \<lfloor>R\<rfloor> \<le> rat_of_int (int (100 * pages_needed R (length ds)))"
    by (simp only: of_int_of_nat_eq)
  then have "\<lfloor>R\<rfloor> \<le> int (100 * pages_needed R (length ds))"
    by (simp only: of_int_le_iff)
  then have "nat \<lfloor>R\<rfloor> \<le> 100 * pages_needed R (length ds)" by simp
  then show ?thesis by (simp add: min_def)
next
  case False
  then have "min R (rat_of_nat (length ds)) = rat_of_nat (length ds)"
    by (intro min_absorb2) simp
  with pages_needed_covers[of R "length ds"]
  have "rat_of_nat (length ds) \<le> of_nat (100 * pages_needed R (length ds))"
    by (simp only:)
  then have "length ds \<le> 100 * pages_needed R (length ds)"
    by (simp only: of_nat_le_iff)
  then show ?thesis by simp
qed

lemma fetched_prefix_whole:
  assumes "of_nat (length ds) \<le> R"
  shows "take (100 * pages_needed R (length ds)) ds = ds"
proof -
  from assms have "min R (rat_of_nat (length ds)) = rat_of_nat (length ds)"
    by (rule min_absorb2)
  with pages_needed_covers[of R "length ds"]
  have "rat_of_nat (length ds) \<le> of_nat (100 * pages_needed R (length ds))"
    by (simp only:)
  then have "length ds \<le> 100 * pages_needed R (length ds)"
    by (simp only: of_nat_le_iff)
  then show ?thesis by simp
qed

lemma ceiling_three_halves: "\<lceil>3 / 2 :: rat\<rceil> = 2"
  by (simp add: ceiling_eq_iff)

text \<open>
  Claim C1, as amended. A successful association lookup returns the first \<open>\<lfloor>R\<rfloor>\<close> of
  the rows that pass the minimum-score filter among the rows its requests were answered
  with. Against an upstream that serves a dataset of \<open>T\<close> rows page by page, it fetches
  exactly \<open>n = max(1, \<lceil>min(R, T) / 100\<rceil>)\<close> pages, so it returns \<open>min(\<lfloor>R\<rfloor>, f)\<close> rows
  where \<open>f\<close> counts the rows that pass among the first \<open>100 n\<close> rows of the dataset,
  not among all \<open>T\<close>. The two counts agree, and the lookup returns the first \<open>\<lfloor>R\<rfloor>\<close>
  passing rows of the whole dataset, when no minimum score is given (or 0) and when
  \<open>T \<le> R\<close>.
\<close>

theorem lookup_returns_filtered_fetched_rows:
  fixes post :: "'e upstream"
  assumes "returned_body (snd (handleGetTargetDiseaseAssociations post args)) = Some b"
    and "as_number (js_or (size_arg args) (JNum 100)) = Some R"
    and "as_number (js_or (minScore args) (JNum 0)) = Some m"
  shows
    "body_rows b
       = take (nat \<lfloor>R\<rfloor>)
           (filterRows m (rows_served post (fst (handleGetTargetDiseaseAssociations post args)))) \<and>
     int (length (body_rows b))
       = min \<lfloor>R\<rfloor>
           (int (length (filterRows m
              (rows_served post (fst (handleGetTargetDiseaseAssociations post args)))))) \<and>
     (post = dataset_upstream label ds \<longrightarrow>
        length (fst (handleGetTargetDiseaseAssociations post args))
          = pages_needed R (length ds) \<and>
        rows_served post (fst (handleGetTargetDiseaseAssociations post args))
          = take (100 * pages_needed R (length ds)) ds \<and>
        body_rows b
          = take (nat \<lfloor>R\<rfloor>) (filterRows m (take (100 * pages_needed R (length ds)) ds)) \<and>
        (m = 0 \<or> of_nat (length ds) \<le> R \<longrightarrow>
           body_rows b = take (nat \<lfloor>R\<rfloor>) (filterRows m ds)))"
proof -
  let ?tr = "fst (handleGetTargetDiseaseAssociations post args)"
  from assms(1) obtain q ident R' m' st where
    R': "as_number (js_or (size_arg args) (JNum 100)) = Some R'" and pos: "0 < R'"
    and m': "as_number (js_or (minScore args) (JNum 0)) = Some m'"
    and run: "fetchAllPages post q ident R' initial_state = (?tr, Inr st)"
    and b: "b = assoc_body_of R' m' st"
    by (rule assoc_success_run)
  from R' m' assms(2,3) have eq: "R' = R" "m' = m" by simp_all
  have all: "allRows st = rows_served post ?tr"
    using fetch_allRows[OF run] by (simp add: initial_state_def)
  have rows: "body_rows b = slice0 (filterRows m (rows_served post ?tr)) R"
    using b eq all by (simp add: assoc_body_of_def Let_def)
  have nonneg: "0 \<le> R" using pos eq by simp
  have one: "body_rows b = take (nat \<lfloor>R\<rfloor>) (filterRows m (rows_served post ?tr))"
    using rows nonneg by (simp add: slice0_nonneg)
  have two: "int (length (body_rows b))
       = min \<lfloor>R\<rfloor> (int (length (filterRows m (rows_served post ?tr))))"
    using rows nonneg by (simp add: length_slice0_nonneg)
  have three: "length ?tr = pages_needed R (length ds) \<and>
        rows_served post ?tr = take (100 * pages_needed R (length ds)) ds \<and>
        body_rows b
          = take (nat \<lfloor>R\<rfloor>) (filterRows m (take (100 * pages_needed R (length ds)) ds)) \<and>
        (m = 0 \<or> of_nat (length ds) \<le> R \<longrightarrow>
           body_rows b = take (nat \<lfloor>R\<rfloor>) (filterRows m ds))"
    if up: "post = dataset_upstream label ds"
  proof -
    have run': "fetchAllPages (dataset_upstream label ds) q ident R initial_state = (?tr, Inr st)"
      using run eq up by simp
    note pinned = dataset_run_from_start[OF run']
    have served: "rows_served post ?tr = take (100 * pages_needed R (length ds)) ds"
      using pinned(2) all by simp
    have cut: "body_rows b
          = take (nat \<lfloor>R\<rfloor>) (filterRows m (take (100 * pages_needed R (length ds)) ds))"
      using one served by simp
    have whole: "body_rows b = take (nat \<lfloor>R\<rfloor>) (filterRows m ds)"
      if "m = 0 \<or> of_nat (length ds) \<le> R"
      using that
    proof
      assume "m = 0"
      then have plain: "filterRows m xs = xs" for xs :: "'e assoc_row list"
        by (simp add: filterRows_def)
      from cut have "body_rows b
          = take (nat \<lfloor>R\<rfloor>) (take (100 * pages_needed R (length ds)) ds)"
        by (simp only: plain)
      also have "\<dots> = take (nat \<lfloor>R\<rfloor>) ds"
        by (rule take_of_fetched_prefix[OF nonneg])
      finally show ?thesis by (simp only: plain)
    next
      assume "of_nat (length ds) \<le> R"
      with cut show ?thesis
        by (simp add: fetched_prefix_whole)
    qed
    from pinned(1) served cut whole show ?thesis by blast
  qed
  from one two three show ?thesis by blast
qed

theorem lookup_returns_filtered_fetched_rows_witness:
  "returned_body (snd (handleGetTargetDiseaseAssociations
        (dataset_upstream ''BRCA1'' (replicate 180 (scored 1) @ replicate 70 (scored 0)))
        (no_args\<lparr>targetId := brca1, size_arg := JNum 150, minScore := JNum (1/2)\<rparr>)))
     = Some \<lparr>body_id = Some ''ENSG00000012048'', body_label = Some ''BRCA1'',
             body_count = 250, body_rows = replicate 150 (scored 1),
             body_pagination =
               \<lparr>requested = 150, returned = 150, total = 250, filtered = 180\<rparr>\<rparr> \<and>
   pages_needed 150 (length (replicate 180 (scored 1) @ replicate 70 (scored 0))) = 2 \<and>
   length (fst (handleGetTargetDiseaseAssociations
        (dataset_upstream ''BRCA1'' (replicate 180 (scored 1) @ replicate 70 (scored 0)))
        (no_args\<lparr>targetId := brca1, size_arg := JNum 150, minScore := JNum (1/2)\<rparr>))) = 2 \<and>
   replicate 150 (scored 1)
     = take (nat \<lfloor>150 :: rat\<rfloor>)
         (filterRows (1/2) (take (100 * 2) (replicate 180 (scored 1) @ replicate 70 (scored 0)))) \<and>
   returned_body (snd (handleGetTargetDiseaseAssociations
        (dataset_upstream ''BRCA1'' (replicate 180 (scored 1) @ replicate 70 (scored 0)))
        (no_args\<lparr>targetId := brca1, size_arg := JNum 150\<rparr>)))
     = Some \<lparr>body_id = Some ''ENSG00000012048'', body_label = Some ''BRCA1'',
             body_count = 250, body_rows = replicate 150 (scored 1),
             body_pagination =
               \<lparr>requested = 150, returned = 150, total = 250, filtered = 200\<rparr>\<rparr> \<and>
   replicate 150 (scored 1)
     = take (nat \<lfloor>150 :: rat\<rfloor>)
         (filterRows 0 (replicate 180 (scored 1) @ replicate 70 (scored 0)))"
proof -
  let ?ds = "replicate 180 (scored 1) @ replicate 70 (scored 0)"
  let ?up = "dataset_upstream ''BRCA1'' ?ds"
  let ?args = "no_args\<lparr>targetId := brca1, size_arg := JNum 150, minScore := JNum (1/2)\<rparr>"
  let ?unf = "no_args\<lparr>targetId := brca1, size_arg := JNum 150\<rparr>"
  let ?b = "\<lparr>body_id = Some ''ENSG00000012048'', body_label = Some ''BRCA1'',
             body_count = 250, body_rows = replicate 150 (scored 1),
             body_pagination =
               \<lparr>requested = 150, returned = 150, total = 250, filtered = 180\<rparr>\<rparr>"
  let ?c = "\<lparr>body_id = Some ''ENSG00000012048'', body_label = Some ''BRCA1'',
             body_count = 250, body_rows = replicate 150 (scored 1),
             body_pagination =
               \<lparr>requested = 150, returned = 150, total = 250, filtered = 200\<rparr>\<rparr>"
  have ok: "returned_body (snd (handleGetTargetDiseaseAssociations ?up ?args)) = Some ?b"
    by (simp add: run_defs assoc_body_of_def filterRows_def slice0_def js_trunc_def scored_def
        replicate_add[symmetric])
  have ok0: "returned_body (snd (handleGetTargetDiseaseAssociations ?up ?unf)) = Some ?c"
    by (simp add: run_defs assoc_body_of_def filterRows_def slice0_def js_trunc_def scored_def
        replicate_add[symmetric])
  have R: "as_number (js_or (size_arg ?args) (JNum 100)) = Some 150"
    by (simp add: js_or_def)
  have m: "as_number (js_or (minScore ?args) (JNum 0)) = Some (1/2)"
    by (simp add: js_or_def)
  have R0: "as_number (js_or (size_arg ?unf) (JNum 100)) = Some 150"
    by (simp add: js_or_def)
  have m0: "as_number (js_or (minScore ?unf) (JNum 0)) = Some 0"
    by (simp add: js_or_def no_args_def)
  have n: "pages_needed 150 (length ?ds) = 2"
    by (simp add: pages_needed_def ceiling_three_halves)
  note filtered = lookup_returns_filtered_fetched_rows[where post = ?up and label = "''BRCA1''"
         and ds = ?ds, OF ok R m]
  note unfiltered = lookup_returns_filtered_fetched_rows[where post = ?up and label = "''BRCA1''"
         and ds = ?ds, OF ok0 R0 m0]
  from filtered have "length (fst (handleGetTargetDiseaseAssociations ?up ?args))
                        = pages_needed 150 (length ?ds)"
    and "body_rows ?b = take (nat \<lfloor>150 :: rat\<rfloor>)
           (filterRows (1/2) (take (100 * pages_needed 150 (length ?ds)) ?ds))"
    by blast+
  then have len: "length (fst (handleGetTargetDiseaseAssociations ?up ?args)) = 2"
    and cut: "replicate 150 (scored 1)
               = take (nat \<lfloor>150 :: rat\<rfloor>) (filterRows (1/2) (take (100 * 2) ?ds))"
    by (simp_all only: n assoc_body.simps)
  from unfiltered have "body_rows ?c = take (nat \<lfloor>150 :: rat\<rfloor>) (filterRows 0 ?ds)"
    by blast
  then have whole: "replicate 150 (scored 1)
                     = take (nat \<lfloor>150 :: rat\<rfloor>) (filterRows 0 ?ds)"
    by (simp only: assoc_body.simps)
  from ok n len cut ok0 whole show ?thesis by blast
qed

text \<open>
  The claim as worded fails when a row that passes the filter lies beyond the pages the
  loop fetches. The dataset has 101 rows, the last one alone scoring at least 1/2; with
  a requested size of 1 the loop stops after the first page of 100 rows and the lookup
  returns no row, where the claim promises \<open>min(1, 1) = 1\<close>.
\<close>

theorem all_rows_filter_counterexample:
  "returned_body (snd (handleGetTargetDiseaseAssociations
        (dataset_upstream ''BRCA1'' (replicate 100 (scored 0) @ [scored 1]))
        (no_args\<lparr>targetId := brca1, size_arg := JNum 1, minScore := JNum (1/2)\<rparr>)))
     = Some \<lparr>body_id = Some ''ENSG00000012048'', body_label = Some ''BRCA1'',
             body_count = 101, body_rows = [],
             body_pagination = \<lparr>requested = 1, returned = 0, total = 101, filtered = 0\<rparr>\<rparr> \<and>
   length (replicate 100 (scored 0) @ [scored 1]) = 101 \<and>
   min 1 (length (filterRows (1/2) (replicate 100 (scored 0) @ [scored 1]))) = 1 \<and>
   length ([] :: unit assoc_row list)
     \<noteq> min 1 (length (filterRows (1/2) (replicate 100 (scored 0) @ [scored 1])))"
  by (simp add: run_defs assoc_body_of_def filterRows_def slice0_def js_trunc_def scored_def)

section \<open>The number of fetches\<close>

lemma fetch_count_from_start:
  assumes "0 < R"
  shows "int (length (fst (fetchAllPages post q ident R initial_state))) \<le> \<lceil>R / 100\<rceil>"
proof -
  have "int (length (fst (fetchAllPages post q ident R initial_state))) \<le> max 1 \<lceil>R / 100\<rceil>"
    using fetch_trace_bound[of post q ident R initial_state] by (simp add: initial_state_def)
  moreover have "0 < \<lceil>R / 100\<rceil>"
    using assms by simp
  ultimately show ?thesis by linarith
qed

text \<open>
  Claim C2. For every requested size \<open>R\<close> (a positive number) and whatever the upstream
  answers (any totals, any page lengths, failures), the loop halts after at most
  \<open>\<lceil>R / 100\<rceil> + 1\<close> requests. That it halts is the termination proof of
  \<open>fetchAllPages\<close>; the requests are the first component of its result. The loop never
  uses the extra iteration: \<open>fetch_trace_bound\<close> gives \<open>max 1 \<lceil>R / 100\<rceil>\<close>.
\<close>

theorem fetch_count_bounded:
  assumes "0 < R"
  shows "int (length (fst (fetchAllPages post q ident R initial_state))) \<le> \<lceil>R / 100\<rceil> + 1"
  using fetch_count_from_start[of R post q ident] assms by linarith

theorem fetch_count_bounded_witness:
  "(0::rat) < 250 \<and>
   int (length (fst (fetchAllPages (dataset_upstream ''BRCA1'' (replicate 1000 (scored 1)))
                       GetTargetAssociations brca1 250 initial_state)))
     \<le> \<lceil>250 / 100 :: rat\<rceil> + 1"
  using fetch_count_bounded[of 250 "dataset_upstream ''BRCA1'' (replicate 1000 (scored 1))"
          GetTargetAssociations brca1]
  by simp

text \<open>
  Claim C6. A requested size of at most one page, \<open>R \<le> 100\<close>, makes the loop issue
  exactly one request, whatever the first page holds (full or short, any total) and also
  when that request fails.
\<close>

theorem single_page_single_fetch:
  assumes "R \<le> 100"
  shows "length (fst (fetchAllPages post q ident R initial_state)) = 1"
  using assms by (intro fetch_single) (simp add: initial_state_def)

theorem single_page_single_fetch_witness:
  "(100::rat) \<le> 100 \<and>
   length (fst (fetchAllPages (dataset_upstream ''BRCA1'' (replicate 250 (scored 1)))
                  GetTargetAssociations brca1 100 initial_state)) = 1"
  using single_page_single_fetch[of 100 "dataset_upstream ''BRCA1'' (replicate 250 (scored 1))"
          GetTargetAssociations brca1]
  by simp

section \<open>Which identifier is given\<close>

text \<open>
  Claim C3, as amended. With neither \<open>targetId\<close> nor \<open>diseaseId\<close> present the lookup
  throws the invalid-parameters error before any fetch. With both present as strings,
  in a bag that passes validation, it returns the "not yet implemented" message, without
  a fetch and without the error flag, when both are non-empty or both are empty.
\<close>

theorem identifier_dispatch:
  fixes post :: "'e upstream"
  shows
    "(targetId args = JUndefined \<and> diseaseId args = JUndefined \<longrightarrow>
        handleGetTargetDiseaseAssociations post args
          = ([], Throws (InvalidParams ''Invalid association arguments''))) \<and>
     (isValidAssociationArgs args \<and> targetId args = JStr t \<and> diseaseId args = JStr d \<and>
      (t = [] \<longleftrightarrow> d = []) \<longrightarrow>
        handleGetTargetDiseaseAssociations post args
          = ([], Returns \<lparr>content = NotImplemented, isError = False\<rparr>))"
proof (intro conjI impI; elim conjE)
  assume "targetId args = JUndefined" and "diseaseId args = JUndefined"
  then have "\<not> isValidAssociationArgs args"
    by (simp add: isValidAssociationArgs_def)
  then show "handleGetTargetDiseaseAssociations post args
          = ([], Throws (InvalidParams ''Invalid association arguments''))"
    by (simp add: handleGetTargetDiseaseAssociations_def)
next
  assume valid: "isValidAssociationArgs args"
    and ids: "targetId args = JStr t" "diseaseId args = JStr d" "(t = []) = (d = [])"
  show "handleGetTargetDiseaseAssociations post args
          = ([], Returns \<lparr>content = NotImplemented, isError = False\<rparr>)"
  proof (cases rule: assoc_handler_cases[of args post])
    case Invalid
    with valid show ?thesis by simp
  next
    case (Target R m)
    with ids show ?thesis by simp
  next
    case (Disease R m)
    with ids show ?thesis by simp
  next
    case Stub
    then show ?thesis by simp
  qed
qed

theorem identifier_dispatch_witness:
  "targetId no_args = JUndefined \<and> diseaseId no_args = JUndefined \<and>
   handleGetTargetDiseaseAssociations (dataset_upstream ''BRCA1'' [scored 1]) no_args
     = ([], Throws (InvalidParams ''Invalid association arguments'')) \<and>
   isValidAssociationArgs (no_args\<lparr>targetId := brca1, diseaseId := breast_cancer\<rparr>) \<and>
   handleGetTargetDiseaseAssociations (dataset_upstream ''BRCA1'' [scored 1])
       (no_args\<lparr>targetId := brca1, diseaseId := breast_cancer\<rparr>)
     = ([], Returns \<lparr>content = NotImplemented, isError = False\<rparr>)"
proof -
  let ?both = "no_args\<lparr>targetId := brca1, diseaseId := breast_cancer\<rparr>"
  have none: "targetId no_args = JUndefined \<and> diseaseId no_args = JUndefined"
    by (simp add: no_args_def)
  have valid: "isValidAssociationArgs ?both"
    by (simp add: isValidAssociationArgs_def valid_size_50000_def valid_minScore_def
        no_args_def brca1_def breast_cancer_def)
  have ids: "targetId ?both = JStr ''ENSG00000012048'' \<and> diseaseId ?both = JStr ''EFO_0000305''"
    by (simp add: brca1_def breast_cancer_def)
  from identifier_dispatch[where args = no_args
          and post = "dataset_upstream ''BRCA1'' [scored 1]"] none
    identifier_dispatch[where args = ?both and t = "''ENSG00000012048''"
          and d = "''EFO_0000305''" and post = "dataset_upstream ''BRCA1'' [scored 1]"]
    valid ids
  show ?thesis by simp
qed

text \<open>
  The claim as worded fails when both identifiers are present and exactly one of them is
  the empty string: the bag below passes validation, and the handler fetches the
  associations of the target instead of returning the message.
\<close>

theorem both_present_counterexample:
  "targetId (no_args\<lparr>targetId := brca1, diseaseId := JStr ''''\<rparr>) \<noteq> JUndefined \<and>
   diseaseId (no_args\<lparr>targetId := brca1, diseaseId := JStr ''''\<rparr>) \<noteq> JUndefined \<and>
   isValidAssociationArgs (no_args\<lparr>targetId := brca1, diseaseId := JStr ''''\<rparr>) \<and>
   handleGetTargetDiseaseAssociations (dataset_upstream ''BRCA1'' [scored 1])
       (no_args\<lparr>targetId := brca1, diseaseId := JStr ''''\<rparr>)
     = ([request_at GetTargetAssociations brca1 0],
        Returns \<lparr>content = TargetAssociations
                    \<lparr>body_id = Some ''ENSG00000012048'', body_label = Some ''BRCA1'',
                     body_count = 1, body_rows = [scored 1],
                     body_pagination =
                       \<lparr>requested = 100, returned = 1, total = 1, filtered = 1\<rparr>\<rparr>,
                 isError = False\<rparr>) \<and>
   handleGetTargetDiseaseAssociations (dataset_upstream ''BRCA1'' [scored 1])
       (no_args\<lparr>targetId := brca1, diseaseId := JStr ''''\<rparr>)
     \<noteq> ([], Returns \<lparr>content = NotImplemented, isError = False\<rparr>)"
  by (simp add: run_defs assoc_body_of_def filterRows_def slice0_def js_trunc_def)

text \<open>
  With both identifiers present and only the disease identifier empty, the lookup by
  target runs: its first request asks for page 0 of the target's associations.
\<close>

lemma empty_disease_identifier_ignored:
  fixes post :: "'e upstream"
  assumes "isValidAssociationArgs args" and "targetId args = JStr t" and "t \<noteq> []"
    and "diseaseId args = JStr []"
  shows "fst (handleGetTargetDiseaseAssociations post args) \<noteq> [] \<and>
         hd (fst (handleGetTargetDiseaseAssociations post args))
           = request_at GetTargetAssociations (JStr t) 0"
proof (cases rule: assoc_handler_cases[of args post])
  case Invalid
  with assms show ?thesis by simp
next
  case (Target R m)
  with assms show ?thesis
    by (simp add: assoc_finish_def fetch_trace_nonempty fetch_trace_hd initial_state_def)
next
  case (Disease R m)
  with assms show ?thesis by simp
next
  case Stub
  with assms show ?thesis by simp
qed

section \<open>A failing fetch\<close>

text \<open>
  The errors array of a body is never read: putting any errors into the bodies that an
  upstream answers with changes neither the requests nor the result of a handler.
\<close>

lemma with_errors_step:
  "rows_of (resp\<lparr>gql_errors := es\<rparr>) = rows_of resp"
  "count_of (resp\<lparr>gql_errors := es\<rparr>) = count_of resp"
  "page_step (resp\<lparr>gql_errors := es\<rparr>) st = page_step resp st"
  "hasMore (resp\<lparr>gql_errors := es\<rparr>) R st = hasMore resp R st"
  by (simp_all add: rows_of_def count_of_def page_step_def hasMore_def)

lemma fetchAllPages_with_errors:
  "fetchAllPages (with_errors errs post) q ident R st = fetchAllPages post q ident R st"
proof (induction st rule: fetchAllPages_induct[of post q ident R])
  case (step st)
  show ?case
  proof (cases rule: fetchAllPages_cases[of post q ident st _ R])
    case (Fail e)
    then have "with_errors errs post (request_at q ident (pageIndex st)) = Inl e"
      by (simp add: with_errors_def)
    with Fail show ?thesis by (simp add: fetchAllPages_fail)
  next
    case (Stop resp)
    let ?resp = "resp\<lparr>gql_errors := errs (request_at q ident (pageIndex st))\<rparr>"
    have "with_errors errs post (request_at q ident (pageIndex st)) = Inr ?resp"
      using Stop(1) by (simp add: with_errors_def)
    moreover have "\<not> hasMore ?resp R (page_step ?resp st)"
      using Stop(2) by (simp add: with_errors_step)
    ultimately have "fetchAllPages (with_errors errs post) q ident R st
        = ([request_at q ident (pageIndex st)], Inr (page_step ?resp st))"
      by (rule fetchAllPages_stop)
    with Stop show ?thesis
      by (simp add: fetchAllPages_stop with_errors_step)
  next
    case (More resp)
    let ?resp = "resp\<lparr>gql_errors := errs (request_at q ident (pageIndex st))\<rparr>"
    have "with_errors errs post (request_at q ident (pageIndex st)) = Inr ?resp"
      using More(1) by (simp add: with_errors_def)
    moreover have "hasMore ?resp R (page_step ?resp st)"
      using More(2) by (simp add: with_errors_step)
    ultimately have "fetchAllPages (with_errors errs post) q ident R st
        = (request_at q ident (pageIndex st)
             # fst (fetchAllPages (with_errors errs post) q ident R (page_step ?resp st)),
           snd (fetchAllPages (with_errors errs post) q ident R (page_step ?resp st)))"
      by (rule fetchAllPages_more)
    with step.IH[OF More] show ?thesis
      by (simp add: fetchAllPages_more[where post = post, OF More] with_errors_step)
  qed
qed

lemma errors_array_is_not_read:
  fixes post :: "'e upstream" and post' :: "target_ref upstream"
  shows "handleGetTargetDiseaseAssociations (with_errors errs post) args
           = handleGetTargetDiseaseAssociations post args"
    and "handleGetDiseaseTargetsSummary (with_errors errs' post') args'
           = handleGetDiseaseTargetsSummary post' args'"
  unfolding handleGetTargetDiseaseAssociations_def handleGetDiseaseTargetsSummary_def
    fetchAllPages_with_errors
  by (rule refl)+

text \<open>A run that ends in a thrown value has a rejected request, its last one.\<close>

lemma fetch_result_failure:
  "snd (fetchAllPages post q ident R st) = Inl e \<Longrightarrow>
   \<exists>req \<in> set (fst (fetchAllPages post q ident R st)). post req = Inl e"
proof (induction st rule: fetchAllPages_induct[of post q ident R])
  case (step st)
  show ?case
  proof (cases rule: fetchAllPages_cases[of post q ident st _ R])
    case (Fail e')
    with step.prems show ?thesis by (simp add: fetchAllPages_fail)
  next
    case (Stop resp)
    with step.prems show ?thesis by (simp add: fetchAllPages_stop)
  next
    case (More resp)
    from step.prems step.IH[OF More] show ?thesis
      by (auto simp: fetchAllPages_more[where post = post, OF More])
  qed
qed

lemma answered_run_succeeds:
  assumes "\<forall>req \<in> set (fst (fetchAllPages post q ident R st)). \<exists>r. post req = Inr r"
  shows "\<exists>st'. snd (fetchAllPages post q ident R st) = Inr st'"
proof (cases "snd (fetchAllPages post q ident R st)")
  case (Inl e)
  from fetch_result_failure[OF Inl] assms show ?thesis by auto
next
  case (Inr st')
  then show ?thesis by simp
qed

text \<open>
  Claim C4, as amended. When a request of the loop is rejected (on the first page or on a
  later one, with pages already accumulated), the association lookup and the summary
  return the error envelope of their \<^verbatim>\<open>catch\<close> block: the text names the failure,
  \<open>isError\<close> is set, and the envelope has no rows, the accumulated ones included. When
  every request of a run is answered, the operation does not fail, whatever errors array
  the bodies carry (GraphQL errors and no data, for instance): it returns a success
  envelope. Rows, where a body has any, have the shape the query selects.
\<close>

theorem fetch_failure_fails_operation:
  fixes post :: "'e upstream" and post' :: "target_ref upstream"
  shows
    "(req \<in> set (fst (handleGetTargetDiseaseAssociations post args)) \<and> post req = Inl e \<longrightarrow>
        snd (handleGetTargetDiseaseAssociations post args)
          = Returns \<lparr>content = AssocErrorText (''Error getting associations: '' @ error_message e),
                     isError = True\<rparr> \<and>
        returned_body (snd (handleGetTargetDiseaseAssociations post args)) = None) \<and>
     (req' \<in> set (fst (handleGetDiseaseTargetsSummary post' args')) \<and> post' req' = Inl e' \<longrightarrow>
        snd (handleGetDiseaseTargetsSummary post' args')
          = Returns \<lparr>content = SummaryErrorText
                       (''Error getting disease targets summary: '' @ error_message e'),
                     isError = True\<rparr> \<and>
        returned_summary (snd (handleGetDiseaseTargetsSummary post' args')) = None) \<and>
     (fst (handleGetTargetDiseaseAssociations post args) \<noteq> [] \<and>
      (\<forall>r \<in> set (fst (handleGetTargetDiseaseAssociations post args)). \<exists>body. post r = Inr body) \<longrightarrow>
        (\<exists>b. returned_body (snd (handleGetTargetDiseaseAssociations post args)) = Some b)) \<and>
     (fst (handleGetDiseaseTargetsSummary post' args') \<noteq> [] \<and>
      (\<forall>r \<in> set (fst (handleGetDiseaseTargetsSummary post' args')). \<exists>body. post' r = Inr body) \<longrightarrow>
        (\<exists>s. returned_summary (snd (handleGetDiseaseTargetsSummary post' args')) = Some s))"
proof (intro conjI impI; elim conjE)
  assume req: "req \<in> set (fst (handleGetTargetDiseaseAssociations post args))"
    and fail: "post req = Inl e"
  have "snd (handleGetTargetDiseaseAssociations post args) = assoc_error e"
  proof (cases rule: assoc_handler_cases[of args post])
    case Invalid
    with req show ?thesis by simp
  next
    case (Target R m)
    with req fail show ?thesis
      by (simp add: assoc_finish_def fetch_failure_is_result)
  next
    case (Disease R m)
    with req fail show ?thesis
      by (simp add: assoc_finish_def fetch_failure_is_result)
  next
    case Stub
    with req show ?thesis by simp
  qed
  then show "snd (handleGetTargetDiseaseAssociations post args)
          = Returns \<lparr>content = AssocErrorText (''Error getting associations: '' @ error_message e),
                     isError = True\<rparr>"
    and "returned_body (snd (handleGetTargetDiseaseAssociations post args)) = None"
    by (simp_all add: assoc_error_def)
next
  assume req: "req' \<in> set (fst (handleGetDiseaseTargetsSummary post' args'))"
    and fail: "post' req' = Inl e'"
  have "snd (handleGetDiseaseTargetsSummary post' args') = summary_error e'"
  proof (cases rule: summary_handler_cases[of args' post'])
    case Invalid
    with req show ?thesis by simp
  next
    case NotNumber
    with req show ?thesis by simp
  next
    case (Run R m)
    with req fail show ?thesis
      by (simp add: summary_finish_def fetch_failure_is_result)
  qed
  then show "snd (handleGetDiseaseTargetsSummary post' args')
          = Returns \<lparr>content = SummaryErrorText
                       (''Error getting disease targets summary: '' @ error_message e'),
                     isError = True\<rparr>"
    and "returned_summary (snd (handleGetDiseaseTargetsSummary post' args')) = None"
    by (simp_all add: summary_error_def)
next
  assume ne: "fst (handleGetTargetDiseaseAssociations post args) \<noteq> []"
    and ans: "\<forall>r \<in> set (fst (handleGetTargetDiseaseAssociations post args)). \<exists>body. post r = Inr body"
  show "\<exists>b. returned_body (snd (handleGetTargetDiseaseAssociations post args)) = Some b"
  proof (cases rule: assoc_handler_cases[of args post])
    case Invalid
    with ne show ?thesis by simp
  next
    case (Target R m)
    with ans have "\<forall>r \<in> set (fst (fetchAllPages post GetTargetAssociations (targetId args) R
                                     initial_state)). \<exists>body. post r = Inr body"
      by (simp add: assoc_finish_def)
    from answered_run_succeeds[OF this] Target(7) show ?thesis
      by (auto simp: assoc_finish_def)
  next
    case (Disease R m)
    with ans have "\<forall>r \<in> set (fst (fetchAllPages post GetDiseaseAssociations (diseaseId args) R
                                     initial_state)). \<exists>body. post r = Inr body"
      by (simp add: assoc_finish_def)
    from answered_run_succeeds[OF this] Disease(7) show ?thesis
      by (auto simp: assoc_finish_def)
  next
    case Stub
    with ne show ?thesis by simp
  qed
next
  assume ne: "fst (handleGetDiseaseTargetsSummary post' args') \<noteq> []"
    and ans: "\<forall>r \<in> set (fst (handleGetDiseaseTargetsSummary post' args')). \<exists>body. post' r = Inr body"
  show "\<exists>s. returned_summary (snd (handleGetDiseaseTargetsSummary post' args')) = Some s"
  proof (cases rule: summary_handler_cases[of args' post'])
    case Invalid
    with ne show ?thesis by simp
  next
    case NotNumber
    with ne show ?thesis by simp
  next
    case (Run R m)
    with ans have "\<forall>r \<in> set (fst (fetchAllPages post' GetDiseaseTargetsSummary
                      (js_or (diseaseId args') (id_arg args')) R initial_state)).
                     \<exists>body. post' r = Inr body"
      by (simp add: summary_finish_def)
    from answered_run_succeeds[OF this] Run(4) show ?thesis
      by (auto simp: summary_finish_def)
  qed
qed

theorem fetch_failure_fails_operation_witness:
  "request_at GetTargetAssociations brca1 1
     \<in> set (fst (handleGetTargetDiseaseAssociations
                   (failing_from 1 (dataset_upstream ''BRCA1'' (replicate 250 (scored 1))))
                   (no_args\<lparr>targetId := brca1, size_arg := JNum 150\<rparr>))) \<and>
   failing_from 1 (dataset_upstream ''BRCA1'' (replicate 250 (scored 1)))
     (request_at GetTargetAssociations brca1 1) = Inl (Error ''timeout of 30000ms exceeded'') \<and>
   snd (handleGetTargetDiseaseAssociations
          (failing_from 1 (dataset_upstream ''BRCA1'' (replicate 250 (scored 1))))
          (no_args\<lparr>targetId := brca1, size_arg := JNum 150\<rparr>))
     = Returns \<lparr>content = AssocErrorText
                   ''Error getting associations: timeout of 30000ms exceeded'',
                isError = True\<rparr> \<and>
   request_at GetDiseaseTargetsSummary breast_cancer 2
     \<in> set (fst (handleGetDiseaseTargetsSummary
                   (failing_from 2 (dataset_upstream ''breast carcinoma''
                                      (replicate 450 (target_row ''BRCA1'' 1))))
                   (no_args\<lparr>diseaseId := breast_cancer, size_arg := JNum 500\<rparr>))) \<and>
   failing_from 2 (dataset_upstream ''breast carcinoma'' (replicate 450 (target_row ''BRCA1'' 1)))
     (request_at GetDiseaseTargetsSummary breast_cancer 2)
     = Inl (Error ''timeout of 30000ms exceeded'') \<and>
   snd (handleGetDiseaseTargetsSummary
          (failing_from 2 (dataset_upstream ''breast carcinoma''
                             (replicate 450 (target_row ''BRCA1'' 1))))
          (no_args\<lparr>diseaseId := breast_cancer, size_arg := JNum 500\<rparr>))
     = Returns \<lparr>content = SummaryErrorText
                   ''Error getting disease targets summary: timeout of 30000ms exceeded'',
                isError = True\<rparr> \<and>
   returned_body (snd (handleGetTargetDiseaseAssociations
          (graphql_error_from 1 (dataset_upstream ''BRCA1'' (replicate 250 (scored 1))))
          (no_args\<lparr>targetId := brca1, size_arg := JNum 150\<rparr>))) \<noteq> None \<and>
   returned_summary (snd (handleGetDiseaseTargetsSummary
          (graphql_error_from 2 (dataset_upstream ''breast carcinoma''
                                   (replicate 450 (target_row ''BRCA1'' 1))))
          (no_args\<lparr>diseaseId := breast_cancer, size_arg := JNum 500\<rparr>))) \<noteq> None"
proof -
  let ?up = "failing_from 1 (dataset_upstream ''BRCA1'' (replicate 250 (scored 1)))"
  let ?args = "no_args\<lparr>targetId := brca1, size_arg := JNum 150\<rparr>"
  let ?up' = "failing_from 2 (dataset_upstream ''breast carcinoma''
                                (replicate 450 (target_row ''BRCA1'' 1)))"
  let ?args' = "no_args\<lparr>diseaseId := breast_cancer, size_arg := JNum 500\<rparr>"
  have a1: "request_at GetTargetAssociations brca1 1
              \<in> set (fst (handleGetTargetDiseaseAssociations ?up ?args))"
    by (simp add: run_defs)
  have a2: "?up (request_at GetTargetAssociations brca1 1)
              = Inl (Error ''timeout of 30000ms exceeded'')"
    by (simp add: failing_from_def request_at_def)
  have s1: "request_at GetDiseaseTargetsSummary breast_cancer 2
              \<in> set (fst (handleGetDiseaseTargetsSummary ?up' ?args'))"
    by (simp add: run_defs)
  have s2: "?up' (request_at GetDiseaseTargetsSummary breast_cancer 2)
              = Inl (Error ''timeout of 30000ms exceeded'')"
    by (simp add: failing_from_def request_at_def)
  let ?gq = "graphql_error_from 1 (dataset_upstream ''BRCA1'' (replicate 250 (scored 1)))"
  let ?gq' = "graphql_error_from 2 (dataset_upstream ''breast carcinoma''
                                      (replicate 450 (target_row ''BRCA1'' 1)))"
  have g1: "fst (handleGetTargetDiseaseAssociations ?gq ?args) \<noteq> []"
    by (simp add: run_defs graphql_error_from_def)
  have g2: "\<forall>r \<in> set (fst (handleGetTargetDiseaseAssociations ?gq ?args)). \<exists>body. ?gq r = Inr body"
    by (simp add: graphql_error_from_def dataset_upstream_def)
  have g3: "fst (handleGetDiseaseTargetsSummary ?gq' ?args') \<noteq> []"
    by (simp add: run_defs graphql_error_from_def)
  have g4: "\<forall>r \<in> set (fst (handleGetDiseaseTargetsSummary ?gq' ?args')). \<exists>body. ?gq' r = Inr body"
    by (simp add: graphql_error_from_def dataset_upstream_def)
  note rejected = fetch_failure_fails_operation[where req = "request_at GetTargetAssociations brca1 1"
        and post = ?up and args = ?args and e = "Error ''timeout of 30000ms exceeded''"
        and req' = "request_at GetDiseaseTargetsSummary breast_cancer 2"
        and post' = ?up' and args' = ?args' and e' = "Error ''timeout of 30000ms exceeded''"]
  note answered = fetch_failure_fails_operation[where post = ?gq and args = ?args
        and post' = ?gq' and args' = ?args']
  from rejected a1 a2 have r1: "snd (handleGetTargetDiseaseAssociations ?up ?args)
     = Returns \<lparr>content = AssocErrorText
                   ''Error getting associations: timeout of 30000ms exceeded'',
                isError = True\<rparr>"
    by (simp add: error_message_def)
  from rejected s1 s2 have r2: "snd (handleGetDiseaseTargetsSummary ?up' ?args')
     = Returns \<lparr>content = SummaryErrorText
                   ''Error getting disease targets summary: timeout of 30000ms exceeded'',
                isError = True\<rparr>"
    by (simp add: error_message_def)
  from answered g1 g2
  have r3: "returned_body (snd (handleGetTargetDiseaseAssociations ?gq ?args)) \<noteq> None"
    by (metis option.distinct(1))
  from answered g3 g4
  have r4: "returned_summary (snd (handleGetDiseaseTargetsSummary ?gq' ?args')) \<noteq> None"
    by (metis option.distinct(1))
  from a1 a2 r1 s1 s2 r2 r3 r4 show ?thesis by blast
qed

text \<open>
  The specification counts a GraphQL error array in a response of status 200 among the
  failures of a fetch. With that reading the claim fails: the first page below arrives
  full, the second is answered with errors and no data, and the lookup returns the 100
  rows of the first page in a success envelope.
\<close>

theorem graphql_error_counterexample:
  "graphql_error_from 1 (dataset_upstream ''BRCA1'' (replicate 250 (scored 1)))
     (request_at GetTargetAssociations brca1 1)
     = Inr \<lparr>gql_errors = [''Internal server error''], gql_data = None\<rparr> \<and>
   handleGetTargetDiseaseAssociations
       (graphql_error_from 1 (dataset_upstream ''BRCA1'' (replicate 250 (scored 1))))
       (no_args\<lparr>targetId := brca1, size_arg := JNum 150\<rparr>)
     = ([request_at GetTargetAssociations brca1 0, request_at GetTargetAssociations brca1 1],
        Returns \<lparr>content = TargetAssociations
                    \<lparr>body_id = Some ''ENSG00000012048'', body_label = Some ''BRCA1'',
                     body_count = 250, body_rows = replicate 100 (scored 1),
                     body_pagination =
                       \<lparr>requested = 150, returned = 100, total = 250, filtered = 100\<rparr>\<rparr>,
                 isError = False\<rparr>)"
  by (simp add: run_defs graphql_error_from_def assoc_body_of_def filterRows_def slice0_def
      js_trunc_def)

section \<open>The first page is authoritative\<close>

text \<open>
  Claim C5. In every successful association lookup (by target or by disease) the total
  count, in the body and in the pagination summary, and the identifier and display name
  of the entity are those of the response to the first request, the one for page 0.
  Nothing a later page reports about them reaches the envelope.
\<close>

theorem first_page_is_authoritative:
  fixes post :: "'e upstream"
  assumes "returned_body (snd (handleGetTargetDiseaseAssociations post args)) = Some b"
  shows "\<exists>resp0.
           fst (handleGetTargetDiseaseAssociations post args) \<noteq> [] \<and>
           req_offset (hd (fst (handleGetTargetDiseaseAssociations post args))) = 0 \<and>
           post (hd (fst (handleGetTargetDiseaseAssociations post args))) = Inr resp0 \<and>
           body_count b = count_of resp0 \<and>
           total (body_pagination b) = count_of resp0 \<and>
           body_id b = Option.bind (gql_data resp0) ent_id \<and>
           body_label b = Option.bind (gql_data resp0) ent_label"
proof -
  let ?tr = "fst (handleGetTargetDiseaseAssociations post args)"
  from assms obtain q ident R m st where
    run: "fetchAllPages post q ident R initial_state = (?tr, Inr st)"
    and b: "b = assoc_body_of R m st"
    by (rule assoc_success_run)
  have first: "pageIndex (initial_state :: 'e agg_state) = 0"
    by (simp add: initial_state_def)
  from fetch_first_page[OF run first] obtain resp0 where
    r0: "post (request_at q ident 0) = Inr resp0"
    and cap: "totalCount st = count_of resp0" "entityId st = Option.bind (gql_data resp0) ent_id"
      "entityName st = Option.bind (gql_data resp0) ent_label"
    by blast
  have tr: "?tr = fst (fetchAllPages post q ident R initial_state)"
    using run by simp
  have ne: "?tr \<noteq> []"
    unfolding tr by (rule fetch_trace_nonempty)
  have hd: "hd ?tr = request_at q ident 0"
    unfolding tr using fetch_trace_hd[of post q ident R initial_state] first by simp
  from ne hd r0 cap b show ?thesis
    by (simp add: assoc_body_of_def Let_def request_at_def)
qed

theorem first_page_is_authoritative_witness:
  "returned_body (snd (handleGetTargetDiseaseAssociations shifting_upstream
                         (no_args\<lparr>targetId := brca1, size_arg := JNum 250\<rparr>)))
     = Some \<lparr>body_id = Some ''ENSG00000012048'', body_label = Some ''BRCA1'',
             body_count = 250,
             body_rows = replicate 250 \<lparr>counterpart = (), score = 1\<rparr>,
             body_pagination =
               \<lparr>requested = 250, returned = 250, total = 250, filtered = 300\<rparr>\<rparr> \<and>
   length (fst (handleGetTargetDiseaseAssociations shifting_upstream
                  (no_args\<lparr>targetId := brca1, size_arg := JNum 250\<rparr>))) = 3 \<and>
   (\<exists>resp0.
      shifting_upstream (request_at GetTargetAssociations brca1 0) = Inr resp0 \<and>
      count_of resp0 = 250 \<and>
      Option.bind (gql_data resp0) ent_id = Some ''ENSG00000012048'' \<and>
      Option.bind (gql_data resp0) ent_label = Some ''BRCA1'')"
proof -
  let ?args = "no_args\<lparr>targetId := brca1, size_arg := JNum 250\<rparr>"
  let ?b = "\<lparr>body_id = Some ''ENSG00000012048'', body_label = Some ''BRCA1'',
             body_count = 250,
             body_rows = replicate 250 \<lparr>counterpart = (), score = (1::rat)\<rparr>,
             body_pagination =
               \<lparr>requested = 250, returned = 250, total = 250, filtered = 300\<rparr>\<rparr>"
  have run: "handleGetTargetDiseaseAssociations shifting_upstream ?args
      = (map (request_at GetTargetAssociations brca1) [0, 1, 2],
         Returns \<lparr>content = TargetAssociations ?b, isError = False\<rparr>)"
    by (simp add: run_defs shifting_upstream_def assoc_body_of_def filterRows_def slice0_def
        js_trunc_def replicate_add[symmetric])
  then have ok: "returned_body (snd (handleGetTargetDiseaseAssociations shifting_upstream ?args))
      = Some ?b"
    by simp
  from first_page_is_authoritative[OF ok] run show ?thesis
    by (auto simp: request_at_def)
qed

section \<open>The size bound of the summary\<close>

text \<open>
  With a disease identifier and any number as \<open>size\<close>, the summary handler goes on to
  fetch, and it does not throw.
\<close>

lemma summary_size_unchecked:
  assumes "truthy (diseaseId args)" and "size_arg args = JNum r"
    and "minScore args = JUndefined"
  shows "fst (handleGetDiseaseTargetsSummary post args) \<noteq> [] \<and>
         snd (handleGetDiseaseTargetsSummary post args)
           \<noteq> Throws (InvalidParams ''Disease ID is required'')"
proof (cases rule: summary_handler_cases[of args post])
  case Invalid
  with assms show ?thesis by simp
next
  case NotNumber
  with assms show ?thesis by (auto simp: js_or_def split: if_splits)
next
  case (Run R m)
  then show ?thesis
    by (cases "snd (fetchAllPages post GetDiseaseTargetsSummary
                      (js_or (diseaseId args) (id_arg args)) R initial_state)")
      (simp_all add: summary_finish_def summary_error_def fetch_trace_nonempty)
qed

text \<open>
  Claim C7. The tool's input schema and the README give the result size of the summary
  as 1 to 500, and the search and association handlers check their \<open>size\<close> in a guard.
  \<open>handleGetDiseaseTargetsSummary\<close> checks the identifier only, so a size outside 1 to
  500 is not rejected: on a size of 1000 one request is sent and a summary comes back.
\<close>

theorem summary_accepts_size_1000:
  "handleGetDiseaseTargetsSummary
     (dataset_upstream ''breast carcinoma'' [target_row ''BRCA1'' 1, target_row ''TP53'' (1/2)])
     (no_args\<lparr>diseaseId := breast_cancer, size_arg := JNum 1000\<rparr>)
   = ([request_at GetDiseaseTargetsSummary breast_cancer 0],
      Returns \<lparr>content = Summary
                  \<lparr>sum_diseaseId = breast_cancer,
                   diseaseName = ''breast carcinoma'',
                   totalTargets = 2,
                   returnedTargets = 2,
                   targets = [summary_target_of (target_row ''BRCA1'' 1),
                              summary_target_of (target_row ''TP53'' (1/2))],
                   sum_pagination =
                     \<lparr>requested = 1000, returned = 2, total = 2, filtered = 2\<rparr>\<rparr>,
               isError = False\<rparr>)"
  by (simp add: run_defs summary_of_def filterRows_def slice0_def js_trunc_def)

section \<open>The hits of a search\<close>

lemma take_floor_min:
  assumes "0 \<le> R"
  shows "take (nat \<lfloor>min R (of_nat (length xs))\<rfloor>) xs = take (nat \<lfloor>R\<rfloor>) xs"
proof (cases "R \<le> of_nat (length xs)")
  case True
  then show ?thesis by (simp add: min_def)
next
  case False
  then have "of_nat (length xs) < R" by simp
  then have "int (length xs) \<le> \<lfloor>R\<rfloor>"
    by (simp add: le_floor_iff)
  then have "length xs \<le> nat \<lfloor>R\<rfloor>" by simp
  with False show ?thesis by (simp add: min_def)
qed

lemma search_size_positive:
  assumes "valid_size_50000 v" and "as_number (js_or v (JNum 25)) = Some R"
  shows "0 < R"
  using assms by (cases v) (auto simp: valid_size_50000_def js_or_def split: if_splits)

text \<open>
  Claim C8. A search that passes validation and whose request succeeds returns the first
  \<open>min(R, n)\<close> of the \<open>n\<close> upstream hits, in upstream order, where \<open>R\<close> is the requested
  size (\<open>size\<close>, or 25 without one), and reports \<open>n\<close> as the total. A size with a
  fraction counts by its integer part: the number of hits returned is \<open>min(R, n)\<close>
  rounded down.
\<close>

theorem search_caps_hits:
  fixes post :: "('h, 'x) search_upstream"
  assumes "as_number (js_or (size_arg args) (JNum 25)) = Some R"
  shows
    "(isValidTargetSearchArgs args \<and>
      post \<lparr>sreq_entity = EntTarget, sreq_queryString = query args\<rparr> = Inr resp \<longrightarrow>
        handleSearchTargets post args
          = ([\<lparr>sreq_entity = EntTarget, sreq_queryString = query args\<rparr>],
             Returns \<lparr>content = SearchData
                         \<lparr>res_rest = resp_rest resp,
                          res_hits = take (nat \<lfloor>min R (of_nat (length (hits_of resp)))\<rfloor>)
                                       (hits_of resp),
                          res_total = length (hits_of resp)\<rparr>,
                      isError = False\<rparr>)) \<and>
     (isValidDiseaseSearchArgs args \<and>
      post \<lparr>sreq_entity = EntDisease, sreq_queryString = query args\<rparr> = Inr resp \<longrightarrow>
        handleSearchDiseases post args
          = ([\<lparr>sreq_entity = EntDisease, sreq_queryString = query args\<rparr>],
             Returns \<lparr>content = SearchData
                         \<lparr>res_rest = resp_rest resp,
                          res_hits = take (nat \<lfloor>min R (of_nat (length (hits_of resp)))\<rfloor>)
                                       (hits_of resp),
                          res_total = length (hits_of resp)\<rparr>,
                      isError = False\<rparr>))"
proof (intro conjI impI; elim conjE)
  assume valid: "isValidTargetSearchArgs args"
    and ok: "post \<lparr>sreq_entity = EntTarget, sreq_queryString = query args\<rparr> = Inr resp"
  from valid have "valid_size_50000 (size_arg args)"
    by (simp add: isValidTargetSearchArgs_def)
  with assms have "0 \<le> R"
    using search_size_positive by fastforce
  then have "slice0 (hits_of resp) R
             = take (nat \<lfloor>min R (of_nat (length (hits_of resp)))\<rfloor>) (hits_of resp)"
    by (simp add: slice0_nonneg take_floor_min)
  with valid ok assms show "handleSearchTargets post args
          = ([\<lparr>sreq_entity = EntTarget, sreq_queryString = query args\<rparr>],
             Returns \<lparr>content = SearchData
                         \<lparr>res_rest = resp_rest resp,
                          res_hits = take (nat \<lfloor>min R (of_nat (length (hits_of resp)))\<rfloor>)
                                       (hits_of resp),
                          res_total = length (hits_of resp)\<rparr>,
                      isError = False\<rparr>)"
    by (simp add: handleSearchTargets_def search_result_of_def Let_def)
next
  assume valid: "isValidDiseaseSearchArgs args"
    and ok: "post \<lparr>sreq_entity = EntDisease, sreq_queryString = query args\<rparr> = Inr resp"
  from valid have "valid_size_50000 (size_arg args)"
    by (simp add: isValidDiseaseSearchArgs_def)
  with assms have "0 \<le> R"
    using search_size_positive by fastforce
  then have "slice0 (hits_of resp) R
             = take (nat \<lfloor>min R (of_nat (length (hits_of resp)))\<rfloor>) (hits_of resp)"
    by (simp add: slice0_nonneg take_floor_min)
  with valid ok assms show "handleSearchDiseases post args
          = ([\<lparr>sreq_entity = EntDisease, sreq_queryString = query args\<rparr>],
             Returns \<lparr>content = SearchData
                         \<lparr>res_rest = resp_rest resp,
                          res_hits = take (nat \<lfloor>min R (of_nat (length (hits_of resp)))\<rfloor>)
                                       (hits_of resp),
                          res_total = length (hits_of resp)\<rparr>,
                      isError = False\<rparr>)"
    by (simp add: handleSearchDiseases_def search_result_of_def Let_def)
qed

theorem search_caps_hits_witness:
  "as_number (js_or (size_arg (no_args\<lparr>query := JStr ''BRCA'', size_arg := JNum 2\<rparr>)) (JNum 25))
     = Some 2 \<and>
   isValidTargetSearchArgs (no_args\<lparr>query := JStr ''BRCA'', size_arg := JNum 2\<rparr>) \<and>
   isValidDiseaseSearchArgs (no_args\<lparr>query := JStr ''BRCA'', size_arg := JNum 2\<rparr>) \<and>
   handleSearchTargets (hits_upstream [''BRCA1'', ''BRCA2'', ''BRIP1''])
       (no_args\<lparr>query := JStr ''BRCA'', size_arg := JNum 2\<rparr>)
     = ([\<lparr>sreq_entity = EntTarget, sreq_queryString = JStr ''BRCA''\<rparr>],
        Returns \<lparr>content = SearchData
                    \<lparr>res_rest = (), res_hits = [''BRCA1'', ''BRCA2''], res_total = 3\<rparr>,
                 isError = False\<rparr>) \<and>
   handleSearchDiseases (hits_upstream [''BRCA1'', ''BRCA2'', ''BRIP1''])
       (no_args\<lparr>query := JStr ''BRCA'', size_arg := JNum 2\<rparr>)
     = ([\<lparr>sreq_entity = EntDisease, sreq_queryString = JStr ''BRCA''\<rparr>],
        Returns \<lparr>content = SearchData
                    \<lparr>res_rest = (), res_hits = [''BRCA1'', ''BRCA2''], res_total = 3\<rparr>,
                 isError = False\<rparr>)"
proof -
  let ?args = "no_args\<lparr>query := JStr ''BRCA'', size_arg := JNum 2\<rparr>"
  let ?up = "hits_upstream [''BRCA1'', ''BRCA2'', ''BRIP1'']"
  have R: "as_number (js_or (size_arg ?args) (JNum 25)) = Some 2"
    by (simp add: js_or_def)
  have vt: "isValidTargetSearchArgs ?args"
    by (simp add: isValidTargetSearchArgs_def valid_size_50000_def valid_format_def no_args_def)
  have vd: "isValidDiseaseSearchArgs ?args"
    by (simp add: isValidDiseaseSearchArgs_def valid_size_50000_def valid_format_def no_args_def)
  have q: "query ?args = JStr ''BRCA''" by simp
  have up: "?up req = Inr \<lparr>resp_hits = Some [''BRCA1'', ''BRCA2'', ''BRIP1''], resp_rest = ()\<rparr>"
    for req by (simp add: hits_upstream_def)
  from search_caps_hits[where args = ?args and R = 2 and post = ?up
         and resp = "\<lparr>resp_hits = Some [''BRCA1'', ''BRCA2'', ''BRIP1''], resp_rest = ()\<rparr>", OF R]
    R vt vd up
  show ?thesis by (simp add: hits_of_def)
qed

section \<open>An empty identifier\<close>

text \<open>
  Claim C9. A bag in which exactly one of \<open>targetId\<close> and \<open>diseaseId\<close> is present, as the
  empty string, passes validation (its \<open>minScore\<close> and \<open>size\<close> being absent or in range):
  the guard asks for a string. The handler then takes neither lookup branch, since both
  test truthiness, and returns the "not yet implemented" message without any fetch.
\<close>

theorem empty_identifier_yields_stub:
  fixes post :: "'e upstream"
  assumes "targetId args = JStr [] \<and> diseaseId args = JUndefined
           \<or> targetId args = JUndefined \<and> diseaseId args = JStr []"
    and "valid_minScore (minScore args)" and "valid_size_50000 (size_arg args)"
  shows "isValidAssociationArgs args \<and>
         handleGetTargetDiseaseAssociations post args
           = ([], Returns \<lparr>content = NotImplemented, isError = False\<rparr>)"
proof -
  from assms have valid: "isValidAssociationArgs args"
    by (auto simp: isValidAssociationArgs_def)
  have "handleGetTargetDiseaseAssociations post args
           = ([], Returns \<lparr>content = NotImplemented, isError = False\<rparr>)"
  proof (cases rule: assoc_handler_cases[of args post])
    case Invalid
    with valid show ?thesis by simp
  next
    case (Target R m)
    with assms(1) show ?thesis by auto
  next
    case (Disease R m)
    with assms(1) show ?thesis by auto
  next
    case Stub
    then show ?thesis by simp
  qed
  with valid show ?thesis by simp
qed

theorem empty_identifier_yields_stub_witness:
  "targetId (no_args\<lparr>targetId := JStr ''''\<rparr>) = JStr [] \<and>
   diseaseId (no_args\<lparr>targetId := JStr ''''\<rparr>) = JUndefined \<and>
   valid_minScore (minScore (no_args\<lparr>targetId := JStr ''''\<rparr>)) \<and>
   valid_size_50000 (size_arg (no_args\<lparr>targetId := JStr ''''\<rparr>)) \<and>
   isValidAssociationArgs (no_args\<lparr>targetId := JStr ''''\<rparr>) \<and>
   handleGetTargetDiseaseAssociations (dataset_upstream ''BRCA1'' [scored 1])
       (no_args\<lparr>targetId := JStr ''''\<rparr>)
     = ([], Returns \<lparr>content = NotImplemented, isError = False\<rparr>)"
proof -
  let ?args = "no_args\<lparr>targetId := JStr ''''\<rparr>"
  have ids: "targetId ?args = JStr [] \<and> diseaseId ?args = JUndefined"
    by (simp add: no_args_def)
  have vm: "valid_minScore (minScore ?args)"
    by (simp add: no_args_def valid_minScore_def)
  have vs: "valid_size_50000 (size_arg ?args)"
    by (simp add: no_args_def valid_size_50000_def)
  from empty_identifier_yields_stub[where args = ?args
          and post = "dataset_upstream ''BRCA1'' [scored 1]", OF disjI1[OF ids] vm vs]
    ids vm vs
  show ?thesis by simp
qed

section \<open>The pagination summary\<close>

lemma floor_five_halves: "\<lfloor>5 / 2 :: rat\<rfloor> = 2"
  by (simp add: floor_eq_iff)

lemma pagination_of_slice:
  assumes "0 \<le> R"
  shows "pagination_consistent
           \<lparr>requested = R, returned = length (slice0 xs R), total = t, filtered = length xs\<rparr>
           (length (slice0 xs R))"
  using assms
  by (simp add: pagination_consistent_def length_slice0_nonneg length_slice0_le)

lemma pagination_as_claimed_integral:
  assumes "pagination_consistent p n" and "requested p \<in> \<int>"
  shows "pagination_as_claimed p n"
proof -
  from assms(2) obtain k where k: "requested p = of_int k"
    by (auto elim: Ints_cases)
  from assms(1) have ret: "int (returned p) = min k (int (filtered p))"
    and rest: "returned p = n" "of_nat (returned p) \<le> requested p"
    by (simp_all add: pagination_consistent_def k)
  have "(of_nat (returned p) :: rat) = of_int (int (returned p))" by simp
  also have "\<dots> = of_int (min k (int (filtered p)))" by (simp only: ret)
  also have "\<dots> = min (of_int k) (of_nat (filtered p))"
    by (simp add: min_def)
  finally show ?thesis
    using rest by (simp add: pagination_as_claimed_def k)
qed

text \<open>
  Claim C10, as amended. In every successful response of the association lookup, and in
  every successful response of the summary whose requested size is not negative, the
  pagination summary satisfies: \<open>returned\<close> is the number of rows in the response,
  \<open>returned = min(\<lfloor>requested\<rfloor>, filtered)\<close> and \<open>returned \<le> requested\<close>. When the
  requested size is a whole number this is the invariant as the claim words it.
\<close>

theorem pagination_metadata_consistent:
  fixes post :: "'e upstream" and post' :: "target_ref upstream"
  shows
    "(returned_body (snd (handleGetTargetDiseaseAssociations post args)) = Some b \<longrightarrow>
        pagination_consistent (body_pagination b) (length (body_rows b)) \<and>
        (requested (body_pagination b) \<in> \<int> \<longrightarrow>
           pagination_as_claimed (body_pagination b) (length (body_rows b)))) \<and>
     (returned_summary (snd (handleGetDiseaseTargetsSummary post' args')) = Some s \<and>
      0 \<le> requested (sum_pagination s) \<longrightarrow>
        pagination_consistent (sum_pagination s) (length (targets s)) \<and>
        returnedTargets s = length (targets s) \<and>
        (requested (sum_pagination s) \<in> \<int> \<longrightarrow>
           pagination_as_claimed (sum_pagination s) (length (targets s))))"
proof (intro conjI impI; (elim conjE)?)
  assume ok: "returned_body (snd (handleGetTargetDiseaseAssociations post args)) = Some b"
  then obtain R m st where pos: "0 < R" and b: "b = assoc_body_of R m st"
    by (rule assoc_success_run)
  from pos have "0 \<le> R" by simp
  then show c: "pagination_consistent (body_pagination b) (length (body_rows b))"
    unfolding b assoc_body_of_def Let_def
    by (simp add: pagination_of_slice)
  assume "requested (body_pagination b) \<in> \<int>"
  with c show "pagination_as_claimed (body_pagination b) (length (body_rows b))"
    by (rule pagination_as_claimed_integral)
next
  assume ok: "returned_summary (snd (handleGetDiseaseTargetsSummary post' args')) = Some s"
    and nonneg: "0 \<le> requested (sum_pagination s)"
  from ok obtain R m st where
    s: "s = summary_of (js_or (diseaseId args') (id_arg args')) R m st"
    by (rule summary_success_run)
  from nonneg have "0 \<le> R"
    by (simp add: s summary_of_def Let_def)
  then show c: "pagination_consistent (sum_pagination s) (length (targets s))"
    unfolding s summary_of_def Let_def
    by (simp add: pagination_of_slice)
  show "returnedTargets s = length (targets s)"
    by (simp add: s summary_of_def Let_def)
  assume "requested (sum_pagination s) \<in> \<int>"
  with c show "pagination_as_claimed (sum_pagination s) (length (targets s))"
    by (rule pagination_as_claimed_integral)
qed

theorem pagination_metadata_consistent_witness:
  "returned_body (snd (handleGetTargetDiseaseAssociations
        (dataset_upstream ''BRCA1'' [scored 1, scored (3/4), scored (1/2)])
        (no_args\<lparr>targetId := brca1, size_arg := JNum (5/2)\<rparr>)))
     = Some \<lparr>body_id = Some ''ENSG00000012048'', body_label = Some ''BRCA1'',
             body_count = 3, body_rows = [scored 1, scored (3/4)],
             body_pagination = \<lparr>requested = 5/2, returned = 2, total = 3, filtered = 3\<rparr>\<rparr> \<and>
   pagination_consistent \<lparr>requested = 5/2, returned = 2, total = 3, filtered = 3\<rparr> 2 \<and>
   returned_summary (snd (handleGetDiseaseTargetsSummary
        (dataset_upstream ''breast carcinoma''
           [target_row ''BRCA1'' 1, target_row ''TP53'' (3/4), target_row ''PTEN'' (1/2)])
        (no_args\<lparr>diseaseId := breast_cancer, size_arg := JNum 2\<rparr>)))
     = Some \<lparr>sum_diseaseId = breast_cancer, diseaseName = ''breast carcinoma'',
             totalTargets = 3, returnedTargets = 2,
             targets = [summary_target_of (target_row ''BRCA1'' 1),
                        summary_target_of (target_row ''TP53'' (3/4))],
             sum_pagination = \<lparr>requested = 2, returned = 2, total = 3, filtered = 3\<rparr>\<rparr> \<and>
   (0::rat) \<le> 2 \<and> (2::rat) \<in> \<int> \<and>
   pagination_consistent \<lparr>requested = 2, returned = 2, total = 3, filtered = 3\<rparr> 2 \<and>
   pagination_as_claimed \<lparr>requested = 2, returned = 2, total = 3, filtered = 3\<rparr> 2"
proof -
  let ?up = "dataset_upstream ''BRCA1'' [scored 1, scored (3/4), scored (1/2)]"
  let ?args = "no_args\<lparr>targetId := brca1, size_arg := JNum (5/2)\<rparr>"
  let ?b = "\<lparr>body_id = Some ''ENSG00000012048'', body_label = Some ''BRCA1'',
             body_count = 3, body_rows = [scored 1, scored (3/4)],
             body_pagination = \<lparr>requested = 5/2, returned = 2, total = 3, filtered = 3\<rparr>\<rparr>"
  let ?up' = "dataset_upstream ''breast carcinoma''
           [target_row ''BRCA1'' 1, target_row ''TP53'' (3/4), target_row ''PTEN'' (1/2)]"
  let ?args' = "no_args\<lparr>diseaseId := breast_cancer, size_arg := JNum 2\<rparr>"
  let ?s = "\<lparr>sum_diseaseId = breast_cancer, diseaseName = ''breast carcinoma'',
             totalTargets = 3, returnedTargets = 2,
             targets = [summary_target_of (target_row ''BRCA1'' 1),
                        summary_target_of (target_row ''TP53'' (3/4))],
             sum_pagination = \<lparr>requested = 2, returned = 2, total = 3, filtered = 3\<rparr>\<rparr>"
  have a: "returned_body (snd (handleGetTargetDiseaseAssociations ?up ?args)) = Some ?b"
    by (simp add: run_defs assoc_body_of_def filterRows_def slice0_def js_trunc_def
        floor_five_halves)
  have s: "returned_summary (snd (handleGetDiseaseTargetsSummary ?up' ?args')) = Some ?s"
    by (simp add: run_defs summary_of_def filterRows_def slice0_def js_trunc_def)
  have n: "(0::rat) \<le> requested (sum_pagination ?s)" by simp
  have i: "requested (sum_pagination ?s) \<in> \<int>" by simp
  note T = pagination_metadata_consistent[where post = ?up and args = ?args and b = ?b
             and post' = ?up' and args' = ?args' and s = ?s]
  from T a have "pagination_consistent (body_pagination ?b) (length (body_rows ?b))"
    by blast
  then have c1: "pagination_consistent \<lparr>requested = 5/2, returned = 2, total = 3, filtered = 3\<rparr> 2"
    by (simp add: numeral_2_eq_2)
  from T s n have "pagination_consistent (sum_pagination ?s) (length (targets ?s))"
    by blast
  then have c2: "pagination_consistent \<lparr>requested = 2, returned = 2, total = 3, filtered = 3\<rparr> 2"
    by (simp add: numeral_2_eq_2)
  from T s n i have "pagination_as_claimed (sum_pagination ?s) (length (targets ?s))"
    by blast
  then have c3: "pagination_as_claimed \<lparr>requested = 2, returned = 2, total = 3, filtered = 3\<rparr> 2"
    by (simp add: numeral_2_eq_2)
  from a c1 s c2 c3 show ?thesis by simp
qed

text \<open>
  The claim as worded fails on a requested size with a fraction, which
  \<open>isValidAssociationArgs\<close> accepts: for a size of 5/2 and three rows the response
  carries two rows and reports \<open>returned = 2\<close>, not \<open>min(5/2, 3) = 5/2\<close>.
\<close>

theorem fractional_size_counterexample:
  "isValidAssociationArgs (no_args\<lparr>targetId := brca1, size_arg := JNum (5/2)\<rparr>) \<and>
   returned_body (snd (handleGetTargetDiseaseAssociations
        (dataset_upstream ''BRCA1'' [scored 1, scored (3/4), scored (1/2)])
        (no_args\<lparr>targetId := brca1, size_arg := JNum (5/2)\<rparr>)))
     = Some \<lparr>body_id = Some ''ENSG00000012048'', body_label = Some ''BRCA1'',
             body_count = 3, body_rows = [scored 1, scored (3/4)],
             body_pagination = \<lparr>requested = 5/2, returned = 2, total = 3, filtered = 3\<rparr>\<rparr> \<and>
   \<not> pagination_as_claimed \<lparr>requested = 5/2, returned = 2, total = 3, filtered = 3\<rparr>
       (length [scored 1, scored (3/4)])"
  by (simp add: run_defs assoc_body_of_def filterRows_def slice0_def js_trunc_def
      floor_five_halves pagination_as_claimed_def)

section \<open>The same facts on the handlers\<close>

text \<open>
  The bound on the number of requests and the single request of a one-page size, read on
  the requests that the handlers issue. A lookup that passes validation has a positive
  requested size; the summary checks nothing about its size, so the bound is stated for a
  positive one.
\<close>

lemma association_fetch_count:
  fixes post :: "'e upstream"
  assumes "isValidAssociationArgs args"
    and "as_number (js_or (size_arg args) (JNum 100)) = Some R"
  shows "int (length (fst (handleGetTargetDiseaseAssociations post args))) \<le> \<lceil>R / 100\<rceil> + 1"
proof (cases rule: assoc_handler_cases[of args post])
  case Invalid
  with assms show ?thesis by simp
next
  case (Target R' m)
  with assms(2) have "R' = R" by simp
  with Target fetch_count_from_start[of R post GetTargetAssociations "targetId args"]
  show ?thesis by (simp add: assoc_finish_def)
next
  case (Disease R' m)
  with assms(2) have "R' = R" by simp
  with Disease fetch_count_from_start[of R post GetDiseaseAssociations "diseaseId args"]
  show ?thesis by (simp add: assoc_finish_def)
next
  case Stub
  from assms have "0 < R"
    by (auto simp: isValidAssociationArgs_def elim: valid_size_number[where d = 100])
  then have "0 < \<lceil>R / 100\<rceil>" by simp
  with Stub show ?thesis by simp
qed

lemma summary_fetch_count:
  assumes "as_number (js_or (size_arg args) (JNum 50)) = Some R" and "0 < R"
  shows "int (length (fst (handleGetDiseaseTargetsSummary post args))) \<le> \<lceil>R / 100\<rceil> + 1"
proof (cases rule: summary_handler_cases[of args post])
  case Invalid
  from assms(2) have "0 < \<lceil>R / 100\<rceil>" by simp
  with Invalid show ?thesis by simp
next
  case NotNumber
  from assms(2) have "0 < \<lceil>R / 100\<rceil>" by simp
  with NotNumber show ?thesis by simp
next
  case (Run R' m)
  with assms(1) have "R' = R" by simp
  with Run assms(2)
    fetch_count_from_start[of R post GetDiseaseTargetsSummary
      "js_or (diseaseId args) (id_arg args)"]
  show ?thesis by (simp add: summary_finish_def)
qed

lemma association_single_fetch:
  fixes post :: "'e upstream"
  assumes "isValidAssociationArgs args"
    and "as_number (js_or (size_arg args) (JNum 100)) = Some R" and "R \<le> 100"
    and "truthy (targetId args) \<noteq> truthy (diseaseId args)"
  shows "length (fst (handleGetTargetDiseaseAssociations post args)) = 1"
proof (cases rule: assoc_handler_cases[of args post])
  case Invalid
  with assms show ?thesis by simp
next
  case (Target R' m)
  with assms(2) have "R' = R" by simp
  with Target assms(3) show ?thesis
    by (simp add: assoc_finish_def fetch_single initial_state_def)
next
  case (Disease R' m)
  with assms(2) have "R' = R" by simp
  with Disease assms(3) show ?thesis
    by (simp add: assoc_finish_def fetch_single initial_state_def)
next
  case Stub
  with assms show ?thesis by simp
qed

text \<open>
  The summary, like the lookup, takes its total from the first page; its name is the
  first page's or \<open>Unknown\<close>, its identifier is the caller's, and its targets are cut
  from the filtered rows of the pages fetched.
\<close>

lemma summary_first_page:
  assumes "returned_summary (snd (handleGetDiseaseTargetsSummary post args)) = Some s"
  shows "\<exists>resp0.
           post (hd (fst (handleGetDiseaseTargetsSummary post args))) = Inr resp0 \<and>
           req_offset (hd (fst (handleGetDiseaseTargetsSummary post args))) = 0 \<and>
           totalTargets s = count_of resp0 \<and>
           total (sum_pagination s) = count_of resp0 \<and>
           diseaseName s = (case Option.bind (gql_data resp0) ent_label of
                              None \<Rightarrow> ''Unknown''
                            | Some n \<Rightarrow> if n = [] then ''Unknown'' else n) \<and>
           sum_diseaseId s = js_or (diseaseId args) (id_arg args)"
proof -
  let ?tr = "fst (handleGetDiseaseTargetsSummary post args)"
  let ?dId = "js_or (diseaseId args) (id_arg args)"
  from assms obtain R m st where
    run: "fetchAllPages post GetDiseaseTargetsSummary ?dId R initial_state = (?tr, Inr st)"
    and s: "s = summary_of ?dId R m st"
    by (rule summary_success_run)
  have first: "pageIndex (initial_state :: target_ref agg_state) = 0"
    by (simp add: initial_state_def)
  from fetch_first_page[OF run first] obtain resp0 where
    r0: "post (request_at GetDiseaseTargetsSummary ?dId 0) = Inr resp0"
    and cap: "totalCount st = count_of resp0" "entityName st = Option.bind (gql_data resp0) ent_label"
    by blast
  have "hd ?tr = request_at GetDiseaseTargetsSummary ?dId 0"
    using fetch_trace_hd[of post GetDiseaseTargetsSummary ?dId R initial_state] run first
    by simp
  with r0 cap s show ?thesis
    by (simp add: summary_of_def Let_def request_at_def)
qed

lemma summary_returns_filtered_fetched_rows:
  assumes "returned_summary (snd (handleGetDiseaseTargetsSummary post args)) = Some s"
    and "as_number (js_or (size_arg args) (JNum 50)) = Some R"
    and "as_number (js_or (minScore args) (JNum 0)) = Some m"
  shows "targets s
           = map summary_target_of
               (slice0 (filterRows m
                  (rows_served post (fst (handleGetDiseaseTargetsSummary post args)))) R)"
proof -
  let ?tr = "fst (handleGetDiseaseTargetsSummary post args)"
  let ?dId = "js_or (diseaseId args) (id_arg args)"
  from assms(1) obtain R' m' st where
    R': "as_number (js_or (size_arg args) (JNum 50)) = Some R'"
    and m': "as_number (js_or (minScore args) (JNum 0)) = Some m'"
    and run: "fetchAllPages post GetDiseaseTargetsSummary ?dId R' initial_state = (?tr, Inr st)"
    and s: "s = summary_of ?dId R' m' st"
    by (rule summary_success_run)
  from R' m' assms(2,3) have eq: "R' = R" "m' = m" by simp_all
  have "allRows st = rows_served post ?tr"
    using fetch_allRows[OF run] by (simp add: initial_state_def)
  with s eq show ?thesis
    by (simp add: summary_of_def Let_def)
qed

end
